theory Spec2Isabelle
  imports Main
begin

section \<open>JSON texts as encoding/json reads them\<close>

text \<open>
  The webhook handler of \<^verbatim>\<open>main.go\<close> hands the request body to
  \<^verbatim>\<open>json.NewDecoder(r.Body).Decode\<close> and the value read to \<^verbatim>\<open>json.Unmarshal\<close>.
  A body is a list of bytes (\<^typ>\<open>string\<close>). A JSON value keeps its literals as they stand
  in the text: a number as its digits, a string and an object key as the bytes between
  the quotes, escapes included, since the decoder reads an \<^verbatim>\<open>int\<close> field from the
  digits and a \<^verbatim>\<open>time.Time\<close> field from the raw bytes. The members of an object stay in
  the order of the text, duplicates included.
\<close>

datatype json =
    JNull
  | JBool bool
  | JNumber string
  | JString string
  | JArray "json list"
  | JObject "(string \<times> json) list"

datatype error =
    EOF
  | ErrUnexpectedEOF
  | SyntaxError
  | UnmarshalTypeError string string
  | TimeParseError string
  | WriteError

definition isSpace :: "char \<Rightarrow> bool" where
  "isSpace c = (c = CHR '' '' \<or> c = CHR 0x09 \<or> c = CHR 0x0D \<or> c = CHR 0x0A)"

definition isDigit :: "char \<Rightarrow> bool" where
  "isDigit c = (48 \<le> (of_char c :: nat) \<and> (of_char c :: nat) \<le> 57)"

definition isDigit19 :: "char \<Rightarrow> bool" where
  "isDigit19 c = (49 \<le> (of_char c :: nat) \<and> (of_char c :: nat) \<le> 57)"

definition isHex :: "char \<Rightarrow> bool" where
  "isHex c = (isDigit c
     \<or> (97 \<le> (of_char c :: nat) \<and> (of_char c :: nat) \<le> 102)
     \<or> (65 \<le> (of_char c :: nat) \<and> (of_char c :: nat) \<le> 70))"

subsection \<open>The scanner\<close>

text \<open>
  The scanner of encoding/json is a state machine that takes one byte at a time and keeps
  a stack of the open objects and arrays. \<open>mode\<close> is its step function (the names follow
  \<^verbatim>\<open>scanner.go\<close>: stateBeginValue, stateInString, state0, ...), carrying the bytes of
  the literal being read; \<open>frame\<close> is an entry of its parse stack together with the
  members read so far: \<open>FKey\<close> and \<open>FColon\<close> are parseObjectKey before and after the key,
  \<open>FVal\<close> and \<open>FMem\<close> are parseObjectValue before and after the value, \<open>FArr\<close> is
  parseArrayValue.
\<close>

datatype frame =
    FArr "json list"
  | FKey "(string \<times> json) list"
  | FColon "(string \<times> json) list" string
  | FVal "(string \<times> json) list" string
  | FMem "(string \<times> json) list"

datatype mode =
    BeginValue
  | BeginValueOrEmpty
  | BeginString
  | BeginStringOrEmpty
  | EndValue
  | InString string
  | InStringEsc string
  | InStringEscU string
  | InStringEscU1 string
  | InStringEscU12 string
  | InStringEscU123 string
  | Neg
  | Zero string
  | Digits string
  | Dot string
  | Dot0 string
  | Exp string
  | ExpSign string
  | Exp0 string
  | Lit string json

text \<open>
  A step goes on (\<open>Next\<close>), ends the top-level value (\<open>Done\<close>, with whether the byte
  belongs to the value: a number ends at the first byte that is not part of it) or is a
  syntax error (\<open>Fail\<close>).
\<close>

datatype scanned = Next mode "frame list" | Done json bool | Fail

definition maxNestingDepth :: nat where
  "maxNestingDepth = 10000"

fun push_value :: "json \<Rightarrow> frame list \<Rightarrow> frame list" where
  "push_value v (FArr vs # st) = FArr (vs @ [v]) # st"
| "push_value v (FVal ms k # st) = FMem (ms @ [(k, v)]) # st"
| "push_value (JString k) (FKey ms # st) = FColon ms k # st"
| "push_value v st = st"

definition complete :: "json \<Rightarrow> frame list \<Rightarrow> scanned" where
  "complete v stk = (if stk = [] then Done v True else Next EndValue (push_value v stk))"

fun stateEndValue :: "char \<Rightarrow> frame list \<Rightarrow> scanned" where
  "stateEndValue c [] = Fail"
| "stateEndValue c (f # st) =
     (if isSpace c then Next EndValue (f # st)
      else case f of
        FColon ms k \<Rightarrow> if c = CHR '':'' then Next BeginValue (FVal ms k # st) else Fail
      | FMem ms \<Rightarrow>
          if c = CHR '','' then Next BeginString (FKey ms # st)
          else if c = CHR ''}'' then complete (JObject ms) st
          else Fail
      | FArr vs \<Rightarrow>
          if c = CHR '','' then Next BeginValue (FArr vs # st)
          else if c = CHR '']'' then complete (JArray vs) st
          else Fail
      | _ \<Rightarrow> Fail)"

definition finish_number :: "string \<Rightarrow> char \<Rightarrow> frame list \<Rightarrow> scanned" where
  "finish_number lit c stk =
     (if stk = [] then Done (JNumber lit) False
      else stateEndValue c (push_value (JNumber lit) stk))"

definition stateBeginValue :: "char \<Rightarrow> frame list \<Rightarrow> scanned" where
  "stateBeginValue c stk =
     (if isSpace c then Next BeginValue stk
      else if c = CHR ''{'' then
        (if length stk + 1 \<le> maxNestingDepth then Next BeginStringOrEmpty (FKey [] # stk) else Fail)
      else if c = CHR ''['' then
        (if length stk + 1 \<le> maxNestingDepth then Next BeginValueOrEmpty (FArr [] # stk) else Fail)
      else if c = CHR 0x22 then Next (InString []) stk
      else if c = CHR ''-'' then Next Neg stk
      else if c = CHR ''0'' then Next (Zero [c]) stk
      else if c = CHR ''t'' then Next (Lit ''rue'' (JBool True)) stk
      else if c = CHR ''f'' then Next (Lit ''alse'' (JBool False)) stk
      else if c = CHR ''n'' then Next (Lit ''ull'' JNull) stk
      else if isDigit19 c then Next (Digits [c]) stk
      else Fail)"

definition stateBeginString :: "char \<Rightarrow> frame list \<Rightarrow> scanned" where
  "stateBeginString c stk =
     (if isSpace c then Next BeginString stk
      else if c = CHR 0x22 then Next (InString []) stk
      else Fail)"

definition state0 :: "string \<Rightarrow> char \<Rightarrow> frame list \<Rightarrow> scanned" where
  "state0 lit c stk =
     (if c = CHR ''.'' then Next (Dot (lit @ [c])) stk
      else if c = CHR ''e'' \<or> c = CHR ''E'' then Next (Exp (lit @ [c])) stk
      else finish_number lit c stk)"

definition stateESign :: "string \<Rightarrow> char \<Rightarrow> frame list \<Rightarrow> scanned" where
  "stateESign lit c stk = (if isDigit c then Next (Exp0 (lit @ [c])) stk else Fail)"

fun step :: "mode \<Rightarrow> char \<Rightarrow> frame list \<Rightarrow> scanned" where
  "step BeginValue c stk = stateBeginValue c stk"
| "step BeginValueOrEmpty c stk =
     (if isSpace c then Next BeginValueOrEmpty stk
      else if c = CHR '']'' then stateEndValue c stk
      else stateBeginValue c stk)"
| "step BeginString c stk = stateBeginString c stk"
| "step BeginStringOrEmpty c stk =
     (if isSpace c then Next BeginStringOrEmpty stk
      else if c = CHR ''}'' then
        (case stk of FKey ms # st \<Rightarrow> stateEndValue c (FMem ms # st) | _ \<Rightarrow> Fail)
      else stateBeginString c stk)"
| "step EndValue c stk = stateEndValue c stk"
| "step (InString lit) c stk =
     (if c = CHR 0x22 then complete (JString lit) stk
      else if c = CHR 0x5C then Next (InStringEsc (lit @ [c])) stk
      else if (of_char c :: nat) < 32 then Fail
      else Next (InString (lit @ [c])) stk)"
| "step (InStringEsc lit) c stk =
     (if c \<in> set ''bfnrt'' \<or> c = CHR 0x5C \<or> c = CHR ''/'' \<or> c = CHR 0x22
        then Next (InString (lit @ [c])) stk
      else if c = CHR ''u'' then Next (InStringEscU (lit @ [c])) stk
      else Fail)"
| "step (InStringEscU lit) c stk = (if isHex c then Next (InStringEscU1 (lit @ [c])) stk else Fail)"
| "step (InStringEscU1 lit) c stk = (if isHex c then Next (InStringEscU12 (lit @ [c])) stk else Fail)"
| "step (InStringEscU12 lit) c stk = (if isHex c then Next (InStringEscU123 (lit @ [c])) stk else Fail)"
| "step (InStringEscU123 lit) c stk = (if isHex c then Next (InString (lit @ [c])) stk else Fail)"
| "step Neg c stk =
     (if c = CHR ''0'' then Next (Zero [CHR ''-'', c]) stk
      else if isDigit19 c then Next (Digits [CHR ''-'', c]) stk
      else Fail)"
| "step (Zero lit) c stk = state0 lit c stk"
| "step (Digits lit) c stk =
     (if isDigit c then Next (Digits (lit @ [c])) stk else state0 lit c stk)"
| "step (Dot lit) c stk = (if isDigit c then Next (Dot0 (lit @ [c])) stk else Fail)"
| "step (Dot0 lit) c stk =
     (if isDigit c then Next (Dot0 (lit @ [c])) stk
      else if c = CHR ''e'' \<or> c = CHR ''E'' then Next (Exp (lit @ [c])) stk
      else finish_number lit c stk)"
| "step (Exp lit) c stk =
     (if c = CHR ''+'' \<or> c = CHR ''-'' then Next (ExpSign (lit @ [c])) stk
      else stateESign lit c stk)"
| "step (ExpSign lit) c stk = stateESign lit c stk"
| "step (Exp0 lit) c stk =
     (if isDigit c then Next (Exp0 (lit @ [c])) stk else finish_number lit c stk)"
| "step (Lit [] v) c stk = Fail"
| "step (Lit (x # xs) v) c stk =
     (if c = x then (if xs = [] then complete v stk else Next (Lit xs v) stk) else Fail)"

text \<open>
  At the end of the input the scanner is given a space: a number that stands alone ends
  there, anything else is unfinished.
\<close>

fun eof :: "mode \<Rightarrow> frame list \<Rightarrow> error + json \<times> string" where
  "eof (Zero lit) [] = Inr (JNumber lit, [])"
| "eof (Digits lit) [] = Inr (JNumber lit, [])"
| "eof (Dot0 lit) [] = Inr (JNumber lit, [])"
| "eof (Exp0 lit) [] = Inr (JNumber lit, [])"
| "eof m stk = Inl ErrUnexpectedEOF"

fun scan :: "mode \<Rightarrow> frame list \<Rightarrow> string \<Rightarrow> error + json \<times> string" where
  "scan m stk [] = eof m stk"
| "scan m stk (c # cs) =
     (case step m c stk of
        Next m' stk' \<Rightarrow> scan m' stk' cs
      | Done v consumed \<Rightarrow> Inr (v, if consumed then cs else c # cs)
      | Fail \<Rightarrow> Inl SyntaxError)"

text \<open>
  \<^verbatim>\<open>Decoder.Decode\<close> into a \<^verbatim>\<open>json.RawMessage\<close> reads the first JSON value of the
  stream and leaves what follows it unread. The bytes it stores are the bytes of that
  value, which \<^verbatim>\<open>json.Unmarshal\<close> scans again: the model keeps the value read. An
  empty or blank body is \<^verbatim>\<open>io.EOF\<close>.
\<close>

definition Decoder_Decode :: "string \<Rightarrow> error + json" where
  "Decoder_Decode body =
     (case scan BeginValue [] body of
        Inr (v, rest) \<Rightarrow> Inr v
      | Inl ErrUnexpectedEOF \<Rightarrow> Inl (if list_all isSpace body then EOF else ErrUnexpectedEOF)
      | Inl e \<Rightarrow> Inl e)"

text \<open>
  \<^verbatim>\<open>json.Valid\<close>: the whole text is one JSON value, with nothing but white space
  around it.
\<close>

definition Valid :: "string \<Rightarrow> bool" where
  "Valid body =
     (case scan BeginValue [] body of
        Inr (v, rest) \<Rightarrow> list_all isSpace rest
      | Inl e \<Rightarrow> False)"

subsection \<open>String literals\<close>

text \<open>
  \<^verbatim>\<open>unquoteBytes\<close> turns the bytes between the quotes into the Go string: escapes are
  replaced, a \<^verbatim>\<open>\u\<close> escape (or a surrogate pair of them) becomes the UTF-8 encoding of
  its code point, and a byte that is not part of well-formed UTF-8 becomes U+FFFD. On a
  literal the scanner has accepted it cannot fail; the branches that return nothing more
  stand for the failure the library turns into a panic.
\<close>

definition RuneError :: string where
  "RuneError = [CHR 0xEF, CHR 0xBF, CHR 0xBD]"

definition in_range :: "nat \<Rightarrow> nat \<Rightarrow> char \<Rightarrow> bool" where
  "in_range lo hi c = (lo \<le> (of_char c :: nat) \<and> (of_char c :: nat) \<le> hi)"

text \<open>
  \<^verbatim>\<open>utf8.DecodeRune\<close>, as far as the decoder needs it: the number of bytes of the
  well-formed encoding at the head of the text, or 0 when there is none.
\<close>

fun rune_len :: "string \<Rightarrow> nat" where
  "rune_len [] = 0"
| "rune_len (b0 # s) =
     (if (of_char b0 :: nat) < 0x80 then 1
      else if in_range 0xC2 0xDF b0 then
        (case s of b1 # _ \<Rightarrow> if in_range 0x80 0xBF b1 then 2 else 0 | _ \<Rightarrow> 0)
      else if in_range 0xE0 0xEF b0 then
        (case s of
           b1 # b2 # _ \<Rightarrow>
             if in_range (if b0 = CHR 0xE0 then 0xA0 else 0x80) (if b0 = CHR 0xED then 0x9F else 0xBF) b1
                \<and> in_range 0x80 0xBF b2
             then 3 else 0
         | _ \<Rightarrow> 0)
      else if in_range 0xF0 0xF4 b0 then
        (case s of
           b1 # b2 # b3 # _ \<Rightarrow>
             if in_range (if b0 = CHR 0xF0 then 0x90 else 0x80) (if b0 = CHR 0xF4 then 0x8F else 0xBF) b1
                \<and> in_range 0x80 0xBF b2 \<and> in_range 0x80 0xBF b3
             then 4 else 0
         | _ \<Rightarrow> 0)
      else 0)"

definition EncodeRune :: "nat \<Rightarrow> string" where
  "EncodeRune r =
     (if r < 0x80 then [char_of r]
      else if r < 0x800 then [char_of (0xC0 + r div 64), char_of (0x80 + r mod 64)]
      else if (0xD800 \<le> r \<and> r < 0xE000) \<or> 0x10FFFF < r then RuneError
      else if r < 0x10000 then
        [char_of (0xE0 + r div 4096), char_of (0x80 + (r div 64) mod 64), char_of (0x80 + r mod 64)]
      else
        [char_of (0xF0 + r div 262144), char_of (0x80 + (r div 4096) mod 64),
         char_of (0x80 + (r div 64) mod 64), char_of (0x80 + r mod 64)])"

definition hexval :: "char \<Rightarrow> nat" where
  "hexval c =
     (if isDigit c then of_char c - 48
      else if in_range 97 102 c then of_char c - 87
      else of_char c - 55)"

fun getu4 :: "string \<Rightarrow> nat option" where
  "getu4 (b # u # h1 # h2 # h3 # h4 # s) =
     (if b = CHR 0x5C \<and> u = CHR ''u'' \<and> isHex h1 \<and> isHex h2 \<and> isHex h3 \<and> isHex h4
      then Some (((hexval h1 * 16 + hexval h2) * 16 + hexval h3) * 16 + hexval h4)
      else None)"
| "getu4 s = None"

definition unescape :: "char \<Rightarrow> char option" where
  "unescape e =
     (if e = CHR 0x22 \<or> e = CHR 0x5C \<or> e = CHR ''/'' \<or> e = CHR 0x27 then Some e
      else if e = CHR ''b'' then Some (CHR 0x08)
      else if e = CHR ''f'' then Some (CHR 0x0C)
      else if e = CHR ''n'' then Some (CHR 0x0A)
      else if e = CHR ''r'' then Some (CHR 0x0D)
      else if e = CHR ''t'' then Some (CHR 0x09)
      else None)"

definition isSurrogate :: "nat \<Rightarrow> bool" where
  "isSurrogate r = (0xD800 \<le> r \<and> r < 0xE000)"

text \<open>\<^verbatim>\<open>utf16.DecodeRune\<close>: the code point of a surrogate pair, if it is one.\<close>

definition utf16_DecodeRune :: "nat \<Rightarrow> nat \<Rightarrow> nat option" where
  "utf16_DecodeRune r1 r2 =
     (if 0xD800 \<le> r1 \<and> r1 < 0xDC00 \<and> 0xDC00 \<le> r2 \<and> r2 < 0xE000
      then Some ((r1 - 0xD800) * 1024 + (r2 - 0xDC00) + 0x10000)
      else None)"

fun unquote :: "string \<Rightarrow> string" where
  "unquote [] = []"
| "unquote (c # s) =
     (if c = CHR 0x5C then
        (case s of
           [] \<Rightarrow> []
         | e # s' \<Rightarrow>
             if e = CHR ''u'' then
               (case getu4 (c # s) of
                  None \<Rightarrow> []
                | Some rr \<Rightarrow>
                    if isSurrogate rr then
                      (case (case getu4 (drop 4 s') of
                               None \<Rightarrow> None
                             | Some rr1 \<Rightarrow> utf16_DecodeRune rr rr1) of
                         Some dec \<Rightarrow> EncodeRune dec @ unquote (drop 10 s')
                       | None \<Rightarrow> RuneError @ unquote (drop 4 s'))
                    else EncodeRune rr @ unquote (drop 4 s'))
             else
               (case unescape e of None \<Rightarrow> [] | Some x \<Rightarrow> x # unquote s'))
      else if c = CHR 0x22 \<or> (of_char c :: nat) < 32 then []
      else if (of_char c :: nat) < 0x80 then c # unquote s
      else
        (case rune_len (c # s) of
           0 \<Rightarrow> RuneError @ unquote s
         | Suc n \<Rightarrow> c # take n s @ unquote (drop n s)))"

subsection \<open>Field names\<close>

text \<open>
  A key of the JSON object selects the struct field whose \<^verbatim>\<open>json\<close> tag it equals, or
  else the first field whose tag it equals under Unicode case folding. The tags of this
  program are ASCII; the runes that fold to an ASCII letter are the letter in either
  case, U+017F for s and U+212A for k.
\<close>

fun foldName :: "string \<Rightarrow> string" where
  "foldName [] = []"
| "foldName (c # s) =
     (if c = CHR 0xC5 \<and> take 1 s = [CHR 0xBF] then CHR ''S'' # foldName (drop 1 s)
      else if c = CHR 0xE2 \<and> take 2 s = [CHR 0x84, CHR 0xAA] then CHR ''K'' # foldName (drop 2 s)
      else (if in_range 97 122 c then char_of ((of_char c :: nat) - 32) else c) # foldName s)"

definition equalFold :: "string \<Rightarrow> string \<Rightarrow> bool" where
  "equalFold name key = (foldName name = foldName key)"

definition find_field :: "(string \<times> 'f) list \<Rightarrow> string \<Rightarrow> 'f option" where
  "find_field fields key =
     (case map_of fields key of
        Some f \<Rightarrow> Some f
      | None \<Rightarrow>
          (case find (\<lambda>(name, f). equalFold name key) fields of
             Some (name, f) \<Rightarrow> Some f
           | None \<Rightarrow> None))"

subsection \<open>Storing a JSON value into a Go value\<close>

text \<open>
  The decoder stores a value into a field according to the field's type. \<^verbatim>\<open>null\<close>
  leaves a string, an int, a bool and a struct as they are. A value of the wrong kind is
  an \<^verbatim>\<open>UnmarshalTypeError\<close> (the JSON value and the Go type): the decoder keeps the
  first one and goes on, and \<^verbatim>\<open>Unmarshal\<close> returns it at the end. A store returns
  the field's new value and the error to keep, if any.
\<close>

definition saveError :: "error option \<Rightarrow> error option \<Rightarrow> error option" where
  "saveError saved e = (case saved of None \<Rightarrow> e | Some x \<Rightarrow> saved)"

fun json_kind :: "json \<Rightarrow> string" where
  "json_kind JNull = ''null''"
| "json_kind (JBool b) = ''bool''"
| "json_kind (JNumber s) = ''number''"
| "json_kind (JString s) = ''string''"
| "json_kind (JArray vs) = ''array''"
| "json_kind (JObject ms) = ''object''"

definition digits_val :: "string \<Rightarrow> int" where
  "digits_val ds = foldl (\<lambda>a c. a * 10 + (of_char c - 48)) 0 ds"

text \<open>
  \<^verbatim>\<open>strconv.ParseInt(s, 10, 64)\<close> on a JSON number: an optional minus sign and
  digits only, within 64 bits. Go's \<^verbatim>\<open>int\<close> is taken to be 64 bits wide.
\<close>

definition ParseInt :: "string \<Rightarrow> int option" where
  "ParseInt s =
     (let neg = (take 1 s = ''-'');
          ds = (if neg then drop 1 s else s);
          n = (if neg then - digits_val ds else digits_val ds)
      in if ds \<noteq> [] \<and> list_all isDigit ds \<and> - (2 ^ 63) \<le> n \<and> n < 2 ^ 63
         then Some n else None)"

text \<open>
  \<^verbatim>\<open>strconv.ParseFloat(s, 64)\<close> on a JSON number fails only when the number rounds to
  an infinity, that is when its magnitude reaches \<open>2\<^sup>1\<^sup>0\<^sup>2\<^sup>4 - 2\<^sup>9\<^sup>7\<^sup>0\<close>.
  \<open>ParseFloat_ok\<close> is whether it succeeds.
\<close>

definition ParseFloat_ok :: "string \<Rightarrow> bool" where
  "ParseFloat_ok s =
     (let ds = (if take 1 s = ''-'' then drop 1 s else s);
          ip = takeWhile isDigit ds;
          r1 = dropWhile isDigit ds;
          fp = (if take 1 r1 = ''.'' then takeWhile isDigit (drop 1 r1) else []);
          r2 = (if take 1 r1 = ''.'' then dropWhile isDigit (drop 1 r1) else r1);
          r3 = drop 1 r2;
          ex = (if take 1 r3 = ''-'' then - digits_val (drop 1 r3)
                else if take 1 r3 = ''+'' then digits_val (drop 1 r3)
                else digits_val r3);
          m = digits_val (ip @ fp);
          e10 = ex - int (length fp)
      in if 0 \<le> e10 then m * 10 ^ nat e10 < 2 ^ 1024 - 2 ^ 970
         else m < (2 ^ 1024 - 2 ^ 970) * 10 ^ nat (- e10))"

definition first_error :: "error option list \<Rightarrow> error option" where
  "first_error es = foldl saveError None es"

text \<open>
  A field of type \<^verbatim>\<open>any\<close> takes every JSON value: \<^verbatim>\<open>null\<close> is nil, a number a
  float64, an array a \<^verbatim>\<open>[]any\<close>, an object a \<^verbatim>\<open>map[string]any\<close>. The model keeps
  the JSON value the Go value is built from. The one error is a number outside float64.
\<close>

fun interface_error :: "json \<Rightarrow> error option" where
  "interface_error (JNumber s) =
     (if ParseFloat_ok s then None else Some (UnmarshalTypeError (''number '' @ s) ''float64''))"
| "interface_error (JArray vs) = first_error (map interface_error vs)"
| "interface_error (JObject ms) = first_error (map (\<lambda>m. interface_error (snd m)) ms)"
| "interface_error j = None"

fun store_string :: "json \<Rightarrow> string \<Rightarrow> string \<times> error option" where
  "store_string JNull cur = (cur, None)"
| "store_string (JString raw) cur = (unquote raw, None)"
| "store_string j cur = (cur, Some (UnmarshalTypeError (json_kind j) ''string''))"

fun store_int :: "json \<Rightarrow> int \<Rightarrow> int \<times> error option" where
  "store_int JNull cur = (cur, None)"
| "store_int (JNumber s) cur =
     (case ParseInt s of
        Some n \<Rightarrow> (n, None)
      | None \<Rightarrow> (cur, Some (UnmarshalTypeError (''number '' @ s) ''int'')))"
| "store_int j cur = (cur, Some (UnmarshalTypeError (json_kind j) ''int''))"

fun store_bool :: "json \<Rightarrow> bool \<Rightarrow> bool \<times> error option" where
  "store_bool JNull cur = (cur, None)"
| "store_bool (JBool b) cur = (b, None)"
| "store_bool j cur = (cur, Some (UnmarshalTypeError (json_kind j) ''bool''))"

definition store_any :: "json \<Rightarrow> json \<Rightarrow> json \<times> error option" where
  "store_any j cur = (j, interface_error j)"

fun store_slice_any :: "json \<Rightarrow> json list \<Rightarrow> json list \<times> error option" where
  "store_slice_any JNull cur = ([], None)"
| "store_slice_any (JArray vs) cur = (vs, first_error (map interface_error vs))"
| "store_slice_any j cur = (cur, Some (UnmarshalTypeError (json_kind j) ''[]interface {}''))"

text \<open>
  \<^verbatim>\<open>time.Time\<close> decodes itself (\<^verbatim>\<open>UnmarshalJSON\<close>): \<^verbatim>\<open>null\<close> leaves it as it is, a
  string literal is parsed, from its raw bytes, as an RFC 3339 time, anything else is an
  error, and the error of an \<^verbatim>\<open>Unmarshaler\<close> ends the decoding at once. Which texts the
  time package accepts is a parameter, \<open>rfc3339\<close>, of everything that decodes a time.
\<close>

datatype Time = ZeroTime | ParsedTime string

fun store_time :: "(string \<Rightarrow> bool) \<Rightarrow> json \<Rightarrow> Time \<Rightarrow> error + Time" where
  "store_time rfc3339 JNull cur = Inr cur"
| "store_time rfc3339 (JString raw) cur =
     (if rfc3339 raw then Inr (ParsedTime raw) else Inl (TimeParseError raw))"
| "store_time rfc3339 j cur = Inl (TimeParseError (json_kind j))"

text \<open>
  Decoding an object into a struct takes the members in the order of the text: a key
  that names no field is skipped, the value of any other is stored into its field, so
  that of two members for one field the later is stored over the earlier. \<open>fields\<close> is
  the struct's table of tags, \<open>store\<close> stores into the field chosen.
\<close>

fun object :: "(string \<times> 'f) list \<Rightarrow> ('f \<Rightarrow> json \<Rightarrow> 's \<Rightarrow> error + 's \<times> error option) \<Rightarrow>
    (string \<times> json) list \<Rightarrow> 's \<Rightarrow> error option \<Rightarrow> error + 's \<times> error option" where
  "object fields store [] s saved = Inr (s, saved)"
| "object fields store ((k, v) # ms) s saved =
     (case find_field fields (unquote k) of
        None \<Rightarrow> object fields store ms s saved
      | Some f \<Rightarrow>
          (case store f v s of
             Inl e \<Rightarrow> Inl e
           | Inr (s', e) \<Rightarrow> object fields store ms s' (saveError saved e)))"

definition struct_value :: "string \<Rightarrow> (string \<times> 'f) list \<Rightarrow>
    ('f \<Rightarrow> json \<Rightarrow> 's \<Rightarrow> error + 's \<times> error option) \<Rightarrow> json \<Rightarrow> 's \<Rightarrow> error + 's \<times> error option" where
  "struct_value tname fields store j s =
     (case j of
        JNull \<Rightarrow> Inr (s, None)
      | JObject ms \<Rightarrow> object fields store ms s None
      | _ \<Rightarrow> Inr (s, Some (UnmarshalTypeError (json_kind j) tname)))"

text \<open>
  \<^verbatim>\<open>json.Unmarshal\<close> of a value the decoder has read (so its syntax check passes):
  the error that ended the decoding, or the first error kept, or the struct.
\<close>

definition Unmarshal :: "(json \<Rightarrow> 's \<Rightarrow> error + 's \<times> error option) \<Rightarrow> json \<Rightarrow> 's \<Rightarrow> error + 's" where
  "Unmarshal val j s =
     (case val j s of
        Inl e \<Rightarrow> Inl e
      | Inr (s', Some e) \<Rightarrow> Inl e
      | Inr (s', None) \<Rightarrow> Inr s')"

section \<open>The event schemas\<close>

text \<open>
  The three structs of \<^verbatim>\<open>main.go\<close>. The anonymous struct of a \<^verbatim>\<open>Data\<close> field and of
  an element of \<^verbatim>\<open>Notifications\<close> is a record of its own. A field of type \<^verbatim>\<open>any\<close>
  holds a \<^typ>\<open>json\<close> (\<^const>\<open>JNull\<close> for nil), a \<^verbatim>\<open>[]any\<close> a list of them.
\<close>

record eventIdentfier =
  ei_Event :: string

record pendingData =
  pd_ID :: int
  pd_Domain :: string
  pd_Amount :: int
  pd_Currency :: string
  pd_DueDate :: json
  pd_HasInvoice :: bool
  pd_InvoiceNumber :: json
  pd_Description :: string
  pd_PdfURL :: json
  pd_LineItems :: "json list"
  pd_Tax :: "json list"
  pd_RequestCode :: string
  pd_Status :: string
  pd_Paid :: bool
  pd_PaidAt :: json
  pd_Metadata :: json
  pd_Notifications :: "json list"
  pd_OfflineReference :: string
  pd_Customer :: int
  pd_CreatedAt :: Time

record paymentPending =
  pp_Event :: string
  pp_Data :: pendingData

record notification =
  n_SentAt :: Time
  n_Channel :: string

record successData =
  sd_ID :: int
  sd_Domain :: string
  sd_Amount :: int
  sd_Currency :: string
  sd_DueDate :: json
  sd_HasInvoice :: bool
  sd_InvoiceNumber :: json
  sd_Description :: string
  sd_PdfURL :: json
  sd_LineItems :: "json list"
  sd_Tax :: "json list"
  sd_RequestCode :: string
  sd_Status :: string
  sd_Paid :: bool
  sd_PaidAt :: Time
  sd_Metadata :: json
  sd_Notifications :: "notification list"
  sd_OfflineReference :: string
  sd_Customer :: int
  sd_CreatedAt :: Time

record paymentSuccessful =
  ps_Event :: string
  ps_Data :: successData

text \<open>The zero values of \<^verbatim>\<open>var ( ... )\<close> at the head of the handler.\<close>

definition zero_eventIdentfier :: eventIdentfier where
  "zero_eventIdentfier = \<lparr>ei_Event = []\<rparr>"

definition zero_pendingData :: pendingData where
  "zero_pendingData =
     \<lparr>pd_ID = 0, pd_Domain = [], pd_Amount = 0, pd_Currency = [], pd_DueDate = JNull,
      pd_HasInvoice = False, pd_InvoiceNumber = JNull, pd_Description = [], pd_PdfURL = JNull,
      pd_LineItems = [], pd_Tax = [], pd_RequestCode = [], pd_Status = [], pd_Paid = False,
      pd_PaidAt = JNull, pd_Metadata = JNull, pd_Notifications = [], pd_OfflineReference = [],
      pd_Customer = 0, pd_CreatedAt = ZeroTime\<rparr>"

definition zero_paymentPending :: paymentPending where
  "zero_paymentPending = \<lparr>pp_Event = [], pp_Data = zero_pendingData\<rparr>"

definition zero_notification :: notification where
  "zero_notification = \<lparr>n_SentAt = ZeroTime, n_Channel = []\<rparr>"

definition zero_successData :: successData where
  "zero_successData =
     \<lparr>sd_ID = 0, sd_Domain = [], sd_Amount = 0, sd_Currency = [], sd_DueDate = JNull,
      sd_HasInvoice = False, sd_InvoiceNumber = JNull, sd_Description = [], sd_PdfURL = JNull,
      sd_LineItems = [], sd_Tax = [], sd_RequestCode = [], sd_Status = [], sd_Paid = False,
      sd_PaidAt = ZeroTime, sd_Metadata = JNull, sd_Notifications = [], sd_OfflineReference = [],
      sd_Customer = 0, sd_CreatedAt = ZeroTime\<rparr>"

definition zero_paymentSuccessful :: paymentSuccessful where
  "zero_paymentSuccessful = \<lparr>ps_Event = [], ps_Data = zero_successData\<rparr>"

subsection \<open>The fields and their tags\<close>

datatype event_field = Event | Data

datatype data_field =
    ID | Domain | Amount | Currency | DueDate | HasInvoice | InvoiceNumber | Description
  | PdfURL | LineItems | Tax | RequestCode | Status | Paid | PaidAt | Metadata
  | Notifications | OfflineReference | Customer | CreatedAt

datatype notification_field = SentAt | Channel

definition eventIdentfier_fields :: "(string \<times> event_field) list" where
  "eventIdentfier_fields = [(''event'', Event)]"

definition payment_fields :: "(string \<times> event_field) list" where
  "payment_fields = [(''event'', Event), (''data'', Data)]"

definition data_fields :: "(string \<times> data_field) list" where
  "data_fields =
     [(''id'', ID), (''domain'', Domain), (''amount'', Amount), (''currency'', Currency),
      (''due_date'', DueDate), (''has_invoice'', HasInvoice), (''invoice_number'', InvoiceNumber),
      (''description'', Description), (''pdf_url'', PdfURL), (''line_items'', LineItems),
      (''tax'', Tax), (''request_code'', RequestCode), (''status'', Status), (''paid'', Paid),
      (''paid_at'', PaidAt), (''metadata'', Metadata), (''notifications'', Notifications),
      (''offline_reference'', OfflineReference), (''customer'', Customer),
      (''created_at'', CreatedAt)]"

definition notification_fields :: "(string \<times> notification_field) list" where
  "notification_fields = [(''sent_at'', SentAt), (''channel'', Channel)]"

subsection \<open>Decoding into the structs\<close>

definition store_eventIdentfier :: "event_field \<Rightarrow> json \<Rightarrow> eventIdentfier \<Rightarrow>
    error + eventIdentfier \<times> error option" where
  "store_eventIdentfier f j d =
     (case store_string j (ei_Event d) of (x, e) \<Rightarrow> Inr (d\<lparr>ei_Event := x\<rparr>, e))"

definition value_eventIdentfier :: "json \<Rightarrow> eventIdentfier \<Rightarrow> error + eventIdentfier \<times> error option" where
  "value_eventIdentfier = struct_value ''main.eventIdentfier'' eventIdentfier_fields store_eventIdentfier"

fun store_pendingData :: "(string \<Rightarrow> bool) \<Rightarrow> data_field \<Rightarrow> json \<Rightarrow> pendingData \<Rightarrow> error + pendingData \<times> error option" where
  "store_pendingData rfc3339 ID j d =
     (case store_int j (pd_ID d) of (x, e) \<Rightarrow> Inr (d\<lparr>pd_ID := x\<rparr>, e))"
| "store_pendingData rfc3339 Domain j d =
     (case store_string j (pd_Domain d) of (x, e) \<Rightarrow> Inr (d\<lparr>pd_Domain := x\<rparr>, e))"
| "store_pendingData rfc3339 Amount j d =
     (case store_int j (pd_Amount d) of (x, e) \<Rightarrow> Inr (d\<lparr>pd_Amount := x\<rparr>, e))"
| "store_pendingData rfc3339 Currency j d =
     (case store_string j (pd_Currency d) of (x, e) \<Rightarrow> Inr (d\<lparr>pd_Currency := x\<rparr>, e))"
| "store_pendingData rfc3339 DueDate j d =
     (case store_any j (pd_DueDate d) of (x, e) \<Rightarrow> Inr (d\<lparr>pd_DueDate := x\<rparr>, e))"
| "store_pendingData rfc3339 HasInvoice j d =
     (case store_bool j (pd_HasInvoice d) of (x, e) \<Rightarrow> Inr (d\<lparr>pd_HasInvoice := x\<rparr>, e))"
| "store_pendingData rfc3339 InvoiceNumber j d =
     (case store_any j (pd_InvoiceNumber d) of (x, e) \<Rightarrow> Inr (d\<lparr>pd_InvoiceNumber := x\<rparr>, e))"
| "store_pendingData rfc3339 Description j d =
     (case store_string j (pd_Description d) of (x, e) \<Rightarrow> Inr (d\<lparr>pd_Description := x\<rparr>, e))"
| "store_pendingData rfc3339 PdfURL j d =
     (case store_any j (pd_PdfURL d) of (x, e) \<Rightarrow> Inr (d\<lparr>pd_PdfURL := x\<rparr>, e))"
| "store_pendingData rfc3339 LineItems j d =
     (case store_slice_any j (pd_LineItems d) of (x, e) \<Rightarrow> Inr (d\<lparr>pd_LineItems := x\<rparr>, e))"
| "store_pendingData rfc3339 Tax j d =
     (case store_slice_any j (pd_Tax d) of (x, e) \<Rightarrow> Inr (d\<lparr>pd_Tax := x\<rparr>, e))"
| "store_pendingData rfc3339 RequestCode j d =
     (case store_string j (pd_RequestCode d) of (x, e) \<Rightarrow> Inr (d\<lparr>pd_RequestCode := x\<rparr>, e))"
| "store_pendingData rfc3339 Status j d =
     (case store_string j (pd_Status d) of (x, e) \<Rightarrow> Inr (d\<lparr>pd_Status := x\<rparr>, e))"
| "store_pendingData rfc3339 Paid j d =
     (case store_bool j (pd_Paid d) of (x, e) \<Rightarrow> Inr (d\<lparr>pd_Paid := x\<rparr>, e))"
| "store_pendingData rfc3339 PaidAt j d =
     (case store_any j (pd_PaidAt d) of (x, e) \<Rightarrow> Inr (d\<lparr>pd_PaidAt := x\<rparr>, e))"
| "store_pendingData rfc3339 Metadata j d =
     (case store_any j (pd_Metadata d) of (x, e) \<Rightarrow> Inr (d\<lparr>pd_Metadata := x\<rparr>, e))"
| "store_pendingData rfc3339 Notifications j d =
     (case store_slice_any j (pd_Notifications d) of (x, e) \<Rightarrow> Inr (d\<lparr>pd_Notifications := x\<rparr>, e))"
| "store_pendingData rfc3339 OfflineReference j d =
     (case store_string j (pd_OfflineReference d) of (x, e) \<Rightarrow> Inr (d\<lparr>pd_OfflineReference := x\<rparr>, e))"
| "store_pendingData rfc3339 Customer j d =
     (case store_int j (pd_Customer d) of (x, e) \<Rightarrow> Inr (d\<lparr>pd_Customer := x\<rparr>, e))"
| "store_pendingData rfc3339 CreatedAt j d =
     (case store_time rfc3339 j (pd_CreatedAt d) of
        Inl e \<Rightarrow> Inl e
      | Inr x \<Rightarrow> Inr (d\<lparr>pd_CreatedAt := x\<rparr>, None))"

fun store_paymentPending :: "(string \<Rightarrow> bool) \<Rightarrow> event_field \<Rightarrow> json \<Rightarrow> paymentPending \<Rightarrow>
    error + paymentPending \<times> error option" where
  "store_paymentPending rfc3339 Event j d =
     (case store_string j (pp_Event d) of (x, e) \<Rightarrow> Inr (d\<lparr>pp_Event := x\<rparr>, e))"
| "store_paymentPending rfc3339 Data j d =
     (case struct_value ''struct'' data_fields (store_pendingData rfc3339) j (pp_Data d) of
        Inl e \<Rightarrow> Inl e
      | Inr (x, e) \<Rightarrow> Inr (d\<lparr>pp_Data := x\<rparr>, e))"

definition value_paymentPending :: "(string \<Rightarrow> bool) \<Rightarrow> json \<Rightarrow> paymentPending \<Rightarrow>
    error + paymentPending \<times> error option" where
  "value_paymentPending rfc3339 =
     struct_value ''main.paymentPending'' payment_fields (store_paymentPending rfc3339)"

fun store_notification :: "(string \<Rightarrow> bool) \<Rightarrow> notification_field \<Rightarrow> json \<Rightarrow> notification \<Rightarrow>
    error + notification \<times> error option" where
  "store_notification rfc3339 SentAt j d =
     (case store_time rfc3339 j (n_SentAt d) of
        Inl e \<Rightarrow> Inl e
      | Inr x \<Rightarrow> Inr (d\<lparr>n_SentAt := x\<rparr>, None))"
| "store_notification rfc3339 Channel j d =
     (case store_string j (n_Channel d) of (x, e) \<Rightarrow> Inr (d\<lparr>n_Channel := x\<rparr>, e))"

text \<open>
  An array decodes into a slice element by element: the element at an index the slice
  already has is decoded over what is there, a further one over the zero value.
\<close>

fun array_notifications :: "(string \<Rightarrow> bool) \<Rightarrow> json list \<Rightarrow> notification list \<Rightarrow> error option \<Rightarrow>
    error + notification list \<times> error option" where
  "array_notifications rfc3339 [] old saved = Inr ([], saved)"
| "array_notifications rfc3339 (v # vs) old saved =
     (case struct_value ''struct'' notification_fields (store_notification rfc3339) v
             (case old of [] \<Rightarrow> zero_notification | n # ns \<Rightarrow> n) of
        Inl e \<Rightarrow> Inl e
      | Inr (n', e) \<Rightarrow>
          (case array_notifications rfc3339 vs (tl old) (saveError saved e) of
             Inl e' \<Rightarrow> Inl e'
           | Inr (ns', saved') \<Rightarrow> Inr (n' # ns', saved')))"

fun store_notifications :: "(string \<Rightarrow> bool) \<Rightarrow> json \<Rightarrow> notification list \<Rightarrow>
    error + notification list \<times> error option" where
  "store_notifications rfc3339 JNull cur = Inr ([], None)"
| "store_notifications rfc3339 (JArray vs) cur = array_notifications rfc3339 vs cur None"
| "store_notifications rfc3339 j cur = Inr (cur, Some (UnmarshalTypeError (json_kind j) ''[]struct''))"

fun store_successData :: "(string \<Rightarrow> bool) \<Rightarrow> data_field \<Rightarrow> json \<Rightarrow> successData \<Rightarrow> error + successData \<times> error option" where
  "store_successData rfc3339 ID j d =
     (case store_int j (sd_ID d) of (x, e) \<Rightarrow> Inr (d\<lparr>sd_ID := x\<rparr>, e))"
| "store_successData rfc3339 Domain j d =
     (case store_string j (sd_Domain d) of (x, e) \<Rightarrow> Inr (d\<lparr>sd_Domain := x\<rparr>, e))"
| "store_successData rfc3339 Amount j d =
     (case store_int j (sd_Amount d) of (x, e) \<Rightarrow> Inr (d\<lparr>sd_Amount := x\<rparr>, e))"
| "store_successData rfc3339 Currency j d =
     (case store_string j (sd_Currency d) of (x, e) \<Rightarrow> Inr (d\<lparr>sd_Currency := x\<rparr>, e))"
| "store_successData rfc3339 DueDate j d =
     (case store_any j (sd_DueDate d) of (x, e) \<Rightarrow> Inr (d\<lparr>sd_DueDate := x\<rparr>, e))"
| "store_successData rfc3339 HasInvoice j d =
     (case store_bool j (sd_HasInvoice d) of (x, e) \<Rightarrow> Inr (d\<lparr>sd_HasInvoice := x\<rparr>, e))"
| "store_successData rfc3339 InvoiceNumber j d =
     (case store_any j (sd_InvoiceNumber d) of (x, e) \<Rightarrow> Inr (d\<lparr>sd_InvoiceNumber := x\<rparr>, e))"
| "store_successData rfc3339 Description j d =
     (case store_string j (sd_Description d) of (x, e) \<Rightarrow> Inr (d\<lparr>sd_Description := x\<rparr>, e))"
| "store_successData rfc3339 PdfURL j d =
     (case store_any j (sd_PdfURL d) of (x, e) \<Rightarrow> Inr (d\<lparr>sd_PdfURL := x\<rparr>, e))"
| "store_successData rfc3339 LineItems j d =
     (case store_slice_any j (sd_LineItems d) of (x, e) \<Rightarrow> Inr (d\<lparr>sd_LineItems := x\<rparr>, e))"
| "store_successData rfc3339 Tax j d =
     (case store_slice_any j (sd_Tax d) of (x, e) \<Rightarrow> Inr (d\<lparr>sd_Tax := x\<rparr>, e))"
| "store_successData rfc3339 RequestCode j d =
     (case store_string j (sd_RequestCode d) of (x, e) \<Rightarrow> Inr (d\<lparr>sd_RequestCode := x\<rparr>, e))"
| "store_successData rfc3339 Status j d =
     (case store_string j (sd_Status d) of (x, e) \<Rightarrow> Inr (d\<lparr>sd_Status := x\<rparr>, e))"
| "store_successData rfc3339 Paid j d =
     (case store_bool j (sd_Paid d) of (x, e) \<Rightarrow> Inr (d\<lparr>sd_Paid := x\<rparr>, e))"
| "store_successData rfc3339 PaidAt j d =
     (case store_time rfc3339 j (sd_PaidAt d) of
        Inl e \<Rightarrow> Inl e
      | Inr x \<Rightarrow> Inr (d\<lparr>sd_PaidAt := x\<rparr>, None))"
| "store_successData rfc3339 Metadata j d =
     (case store_any j (sd_Metadata d) of (x, e) \<Rightarrow> Inr (d\<lparr>sd_Metadata := x\<rparr>, e))"
| "store_successData rfc3339 Notifications j d =
     (case store_notifications rfc3339 j (sd_Notifications d) of
        Inl e \<Rightarrow> Inl e
      | Inr (x, e) \<Rightarrow> Inr (d\<lparr>sd_Notifications := x\<rparr>, e))"
| "store_successData rfc3339 OfflineReference j d =
     (case store_string j (sd_OfflineReference d) of (x, e) \<Rightarrow> Inr (d\<lparr>sd_OfflineReference := x\<rparr>, e))"
| "store_successData rfc3339 Customer j d =
     (case store_int j (sd_Customer d) of (x, e) \<Rightarrow> Inr (d\<lparr>sd_Customer := x\<rparr>, e))"
| "store_successData rfc3339 CreatedAt j d =
     (case store_time rfc3339 j (sd_CreatedAt d) of
        Inl e \<Rightarrow> Inl e
      | Inr x \<Rightarrow> Inr (d\<lparr>sd_CreatedAt := x\<rparr>, None))"

fun store_paymentSuccessful :: "(string \<Rightarrow> bool) \<Rightarrow> event_field \<Rightarrow> json \<Rightarrow> paymentSuccessful \<Rightarrow>
    error + paymentSuccessful \<times> error option" where
  "store_paymentSuccessful rfc3339 Event j d =
     (case store_string j (ps_Event d) of (x, e) \<Rightarrow> Inr (d\<lparr>ps_Event := x\<rparr>, e))"
| "store_paymentSuccessful rfc3339 Data j d =
     (case struct_value ''struct'' data_fields (store_successData rfc3339) j (ps_Data d) of
        Inl e \<Rightarrow> Inl e
      | Inr (x, e) \<Rightarrow> Inr (d\<lparr>ps_Data := x\<rparr>, e))"

definition value_paymentSuccessful :: "(string \<Rightarrow> bool) \<Rightarrow> json \<Rightarrow> paymentSuccessful \<Rightarrow>
    error + paymentSuccessful \<times> error option" where
  "value_paymentSuccessful rfc3339 =
     struct_value ''main.paymentSuccessful'' payment_fields (store_paymentSuccessful rfc3339)"

section \<open>The HTTP surface\<close>

text \<open>
  A handler gets the logger, the response writer and the request, and returns the logger
  and the writer as it leaves them. The logger is the list of the records written. A
  response writer has the headers added, the status sent (by \<^verbatim>\<open>WriteHeader\<close>, or 200 by
  the first write) and the JSON documents encoded into the body, one per call of
  \<^verbatim>\<open>Encode\<close>; \<open>broken\<close> is a writer whose \<^verbatim>\<open>Write\<close> fails and takes nothing. The
  server answers 200 when the handler returns without a status. A Go map literal with
  string keys, which \<^verbatim>\<open>Encode\<close> writes as a JSON object, is the list of its entries.
\<close>

datatype level = INFO | ERROR

datatype attr = StringValue string | Int64Value int | AnyValue error

type_synonym Logger = "(level \<times> string \<times> (string \<times> attr) list) list"

definition Info :: "string \<Rightarrow> (string \<times> attr) list \<Rightarrow> Logger \<Rightarrow> Logger" where
  "Info msg args l = l @ [(INFO, msg, args)]"

definition Error :: "string \<Rightarrow> (string \<times> attr) list \<Rightarrow> Logger \<Rightarrow> Logger" where
  "Error msg args l = l @ [(ERROR, msg, args)]"

datatype go_value = GoString string | GoInt int

record ResponseWriter =
  Header :: "(string \<times> string) list"
  status :: "nat option"
  written :: "(string \<times> go_value) list list"
  broken :: bool

record Request =
  Body :: string

definition Header_Add :: "string \<Rightarrow> string \<Rightarrow> ResponseWriter \<Rightarrow> ResponseWriter" where
  "Header_Add k v w = w\<lparr>Header := Header w @ [(k, v)]\<rparr>"

definition WriteHeader :: "nat \<Rightarrow> ResponseWriter \<Rightarrow> ResponseWriter" where
  "WriteHeader code w = (if status w = None then w\<lparr>status := Some code\<rparr> else w)"

definition Encode :: "(string \<times> go_value) list \<Rightarrow> ResponseWriter \<Rightarrow> error option \<times> ResponseWriter" where
  "Encode v w =
     (if broken w then (Some WriteError, w)
      else (None, (WriteHeader 200 w)\<lparr>written := written w @ [v]\<rparr>))"

definition response_status :: "ResponseWriter \<Rightarrow> nat" where
  "response_status w = (case status w of None \<Rightarrow> 200 | Some code \<Rightarrow> code)"

definition HealthCheck :: "Logger \<Rightarrow> ResponseWriter \<Rightarrow> Request \<Rightarrow> Logger \<times> ResponseWriter" where
  "HealthCheck l w r =
     (case Encode [(''data'', GoString ''Hello from localhost:3000'')] w of
        (Some err, w') \<Rightarrow>
          (Error ''error encoding data to send as response'' [(''error context'', AnyValue err)] l, w')
      | (None, w') \<Rightarrow> (l, w'))"

text \<open>
  \<open>user\<close> is the value of the environment variable \<^verbatim>\<open>USER\<close>, which the handler logs.
\<close>

definition HandleDynamicAPI :: "(string \<Rightarrow> bool) \<Rightarrow> string \<Rightarrow> Logger \<Rightarrow> ResponseWriter \<Rightarrow> Request \<Rightarrow>
    Logger \<times> ResponseWriter" where
  "HandleDynamicAPI rfc3339 user l0 w r =
     (let l = Info ''This API is connected'' [(''user'', StringValue user)] l0 in
      case Decoder_Decode (Body r) of
        Inl err \<Rightarrow> (Error ''error decoding json response'' [(''error context'', AnyValue err)] l, w)
      | Inr jsonData \<Rightarrow>
     (case Unmarshal value_eventIdentfier jsonData zero_eventIdentfier of
        Inl err \<Rightarrow>
          (Error ''error unmarshalling json data message'' [(''error context'', AnyValue err)] l, w)
      | Inr eventIdentfier \<Rightarrow>
     if ei_Event eventIdentfier = ''paymentrequest.pending'' then
       (let l = Info ''payment pending hook event''
                  [(''response event title'', StringValue (ei_Event eventIdentfier))] l in
        case Unmarshal (value_paymentPending rfc3339) jsonData zero_paymentPending of
          Inl err \<Rightarrow>
            (Error ''error marshalling pending payment data'' [(''error context'', AnyValue err)] l, w)
        | Inr paymentPending \<Rightarrow>
       (let w = Header_Add ''Content-Type'' ''application/json'' w in
        case Encode [(''event type'', GoString (pp_Event paymentPending)),
                     (''amount'', GoInt (pd_Amount (pp_Data paymentPending)))] w of
          (Some err, w) \<Rightarrow>
            (Error ''error encoding data to send as response'' [(''error context'', AnyValue err)] l, w)
        | (None, w) \<Rightarrow>
            (Info ''pending response data unmarshalled successfully''
               [(''pending ID'', Int64Value (pd_ID (pp_Data paymentPending))),
                (''pending amount'', Int64Value (pd_Amount (pp_Data paymentPending)))] l, w)))
     else if ei_Event eventIdentfier = ''paymentrequest.success'' then
       (let l = Info ''payment successful hook event''
                  [(''response event title'', StringValue (ei_Event eventIdentfier))] l in
        case Unmarshal (value_paymentSuccessful rfc3339) jsonData zero_paymentSuccessful of
          Inl err \<Rightarrow>
            (Error ''error marshalling successful payment data'' [(''error context'', AnyValue err)] l, w)
        | Inr paymentSuccessful \<Rightarrow>
       (let w = Header_Add ''Content-Type'' ''application/json'' w in
        case Encode [(''event type'', GoString (ps_Event paymentSuccessful)),
                     (''description'', GoString (sd_Description (ps_Data paymentSuccessful)))] w of
          (Some err, w) \<Rightarrow> (l, w)
        | (None, w) \<Rightarrow>
            (Info ''success response data unmarshalled successfully''
               [(''success ID'', Int64Value (sd_ID (ps_Data paymentSuccessful))),
                (''success amount'', Int64Value (sd_Amount (ps_Data paymentSuccessful)))] l, w)))
     else
       (let l = Info ''no event type found''
                  [(''response event title'', StringValue (ei_Event eventIdentfier))] l in
        (l, WriteHeader 500 w))))"

text \<open>The writer of a fresh response.\<close>

definition new_writer :: "bool \<Rightarrow> ResponseWriter" where
  "new_writer b = \<lparr>Header = [], status = None, written = [], broken = b\<rparr>"

text \<open>
  The server calls the handler registered for the path once for each request, with a
  writer of its own; the logger is shared.
\<close>

fun serve :: "(Logger \<Rightarrow> ResponseWriter \<Rightarrow> Request \<Rightarrow> Logger \<times> ResponseWriter) \<Rightarrow> Logger \<Rightarrow>
    Request list \<Rightarrow> Logger \<times> ResponseWriter list" where
  "serve h l [] = (l, [])"
| "serve h l (r # rs) =
     (case h l (new_writer False) r of
        (l', w) \<Rightarrow> (case serve h l' rs of (l'', ws) \<Rightarrow> (l'', w # ws)))"





text \<open>
  The envelope in the words of the specification: a key names the event field when it
  reads \<^verbatim>\<open>event\<close> in any letter case; the event of an object is the string of its last
  event member that is a string, or the empty string when it has none; an object fits the
  envelope when each of its event members is a string or \<^verbatim>\<open>null\<close>.
\<close>

definition names_event :: "string \<Rightarrow> bool" where
  "names_event k = equalFold ''event'' (unquote k)"

definition event_strings :: "(string \<times> json) list \<Rightarrow> string list" where
  "event_strings ms =
     concat (map (\<lambda>(k, v). case v of JString raw \<Rightarrow> if names_event k then [unquote raw] else [] | _ \<Rightarrow> []) ms)"

definition envelope_event :: "(string \<times> json) list \<Rightarrow> string" where
  "envelope_event ms = (if event_strings ms = [] then [] else last (event_strings ms))"

definition envelope_ok :: "(string \<times> json) list \<Rightarrow> bool" where
  "envelope_ok ms =
     list_all (\<lambda>(k, v). if names_event k then (case v of JNull \<Rightarrow> True | JString raw \<Rightarrow> True | _ \<Rightarrow> False) else True) ms"

text \<open>
  The types of the fields as the structs declare them, and what a value of each type
  takes: \<^verbatim>\<open>null\<close> fits every type; a string, a bool and an array fit \<^verbatim>\<open>string\<close>,
  \<^verbatim>\<open>bool\<close> and a slice whose element type takes each element; a number fits \<^verbatim>\<open>int\<close>
  when it is an integer of 64 bits; a string fits \<^verbatim>\<open>time.Time\<close> when it is an RFC 3339
  time; every value whose numbers are within float64 fits \<^verbatim>\<open>any\<close>; an object fits a
  struct when each member that names a field fits the field's type. A member that is
  absent is not looked at.
\<close>

datatype gotype = TString | TInt | TBool | TAny | TTime | TSlice gotype | TStruct "(string \<times> gotype) list"

fun accepts :: "(string \<Rightarrow> bool) \<Rightarrow> gotype \<Rightarrow> json \<Rightarrow> bool" where
  "accepts rfc3339 TAny j = (interface_error j = None)"
| "accepts rfc3339 T JNull = True"
| "accepts rfc3339 TString (JString raw) = True"
| "accepts rfc3339 TInt (JNumber s) = (ParseInt s \<noteq> None)"
| "accepts rfc3339 TBool (JBool b) = True"
| "accepts rfc3339 TTime (JString raw) = rfc3339 raw"
| "accepts rfc3339 (TSlice T) (JArray vs) = list_all (accepts rfc3339 T) vs"
| "accepts rfc3339 (TStruct fs) (JObject ms) =
     list_all (\<lambda>m. case find_field fs (unquote (fst m)) of
                      None \<Rightarrow> True
                    | Some T \<Rightarrow> accepts rfc3339 T (snd m)) ms"
| "accepts rfc3339 T j = False"

text \<open>The field types of the \<^verbatim>\<open>Data\<close> struct of \<^verbatim>\<open>paymentPending\<close>.\<close>

fun pending_type :: "data_field \<Rightarrow> gotype" where
  "pending_type ID = TInt"
| "pending_type Domain = TString"
| "pending_type Amount = TInt"
| "pending_type Currency = TString"
| "pending_type DueDate = TAny"
| "pending_type HasInvoice = TBool"
| "pending_type InvoiceNumber = TAny"
| "pending_type Description = TString"
| "pending_type PdfURL = TAny"
| "pending_type LineItems = TSlice TAny"
| "pending_type Tax = TSlice TAny"
| "pending_type RequestCode = TString"
| "pending_type Status = TString"
| "pending_type Paid = TBool"
| "pending_type PaidAt = TAny"
| "pending_type Metadata = TAny"
| "pending_type Notifications = TSlice TAny"
| "pending_type OfflineReference = TString"
| "pending_type Customer = TInt"
| "pending_type CreatedAt = TTime"

definition struct_type :: "(string \<times> 'f) list \<Rightarrow> ('f \<Rightarrow> gotype) \<Rightarrow> gotype" where
  "struct_type fs ty = TStruct (map (\<lambda>nf. (fst nf, ty (snd nf))) fs)"

fun notification_type :: "notification_field \<Rightarrow> gotype" where
  "notification_type SentAt = TTime"
| "notification_type Channel = TString"

text \<open>
  The \<^verbatim>\<open>Data\<close> struct of \<^verbatim>\<open>paymentSuccessful\<close> differs in \<^verbatim>\<open>PaidAt\<close> and
  \<^verbatim>\<open>Notifications\<close>.
\<close>

fun successful_type :: "data_field \<Rightarrow> gotype" where
  "successful_type PaidAt = TTime"
| "successful_type Notifications = TSlice (struct_type notification_fields notification_type)"
| "successful_type f = pending_type f"

fun payment_type :: "(data_field \<Rightarrow> gotype) \<Rightarrow> event_field \<Rightarrow> gotype" where
  "payment_type ty Event = TString"
| "payment_type ty Data = struct_type data_fields ty"

definition paymentPending_type :: gotype where
  "paymentPending_type = struct_type payment_fields (payment_type pending_type)"

definition paymentSuccessful_type :: gotype where
  "paymentSuccessful_type = struct_type payment_fields (payment_type successful_type)"





text \<open>
  What the payload says a field is, when several members name it: \<open>field_values\<close> lists,
  in the order of the text, the values that the members naming the field \<open>f\<close> contribute,
  a member contributing the integer of its number, or the string of its string literal,
  and nothing when its value is of another kind. The amount of a payload is the last
  integer that an amount member of one of its data objects contributes, or 0; its
  description is the last string that a description member contributes, or the empty
  string. A key names a field in any letter case.
\<close>

definition field_values :: "(string \<times> 'f) list \<Rightarrow> 'f \<Rightarrow> (json \<Rightarrow> 'a list) \<Rightarrow> (string \<times> json) list \<Rightarrow> 'a list" where
  "field_values fs f val ms =
     concat (map (\<lambda>m. if find_field fs (unquote (fst m)) = Some f then val (snd m) else []) ms)"

definition int_values :: "json \<Rightarrow> int list" where
  "int_values v =
     (case v of
        JNumber s \<Rightarrow> (case ParseInt s of Some n \<Rightarrow> [n] | None \<Rightarrow> [])
      | _ \<Rightarrow> [])"

definition string_values :: "json \<Rightarrow> string list" where
  "string_values v = (case v of JString raw \<Rightarrow> [unquote raw] | _ \<Rightarrow> [])"

definition object_values :: "data_field \<Rightarrow> (json \<Rightarrow> 'a list) \<Rightarrow> json \<Rightarrow> 'a list" where
  "object_values f val v = (case v of JObject ms' \<Rightarrow> field_values data_fields f val ms' | _ \<Rightarrow> [])"

definition data_values :: "data_field \<Rightarrow> (json \<Rightarrow> 'a list) \<Rightarrow> (string \<times> json) list \<Rightarrow> 'a list" where
  "data_values f val ms = field_values payment_fields Data (object_values f val) ms"

definition payload_amount :: "(string \<times> json) list \<Rightarrow> int" where
  "payload_amount ms =
     (if data_values Amount int_values ms = [] then 0 else last (data_values Amount int_values ms))"

definition payload_description :: "(string \<times> json) list \<Rightarrow> string" where
  "payload_description ms =
     (if data_values Description string_values ms = [] then []
      else last (data_values Description string_values ms))"

section \<open>Properties\<close>

subsection \<open>The decoder and valid JSON\<close>

lemma Valid_Decode: "Valid body \<Longrightarrow> \<exists>j. Decoder_Decode body = Inr j"
  by (auto simp: Valid_def Decoder_Decode_def split: sum.splits)

lemma Decode_error_invalid: "Decoder_Decode body = Inl e \<Longrightarrow> \<not> Valid body"
  by (auto simp: Valid_def Decoder_Decode_def split: sum.splits error.splits)

subsection \<open>The event of the envelope and of the typed structs\<close>

lemma find_field_payment:
  "find_field eventIdentfier_fields key = Some Event \<longleftrightarrow> find_field payment_fields key = Some Event"
  by (auto simp: find_field_def eventIdentfier_fields_def payment_fields_def equalFold_def in_range_def
      split: option.splits if_splits)

lemma find_field_eventIdentfier:
  "find_field eventIdentfier_fields key = Some f \<Longrightarrow> f = Event"
  by (cases f) (auto simp: find_field_def eventIdentfier_fields_def split: option.splits if_splits)

lemma find_field_envelope_None:
  "find_field payment_fields key \<noteq> Some Event \<Longrightarrow> find_field eventIdentfier_fields key = None"
  using find_field_payment[of key] find_field_eventIdentfier[of key]
  by (cases "find_field eventIdentfier_fields key") auto

lemma object_Cons_Some:
  "find_field fs (unquote k) = Some f \<Longrightarrow> store f v s = Inr (s1, e1) \<Longrightarrow>
   object fs store ((k, v) # ms) s saved = object fs store ms s1 (saveError saved e1)"
  by simp

lemma object_Cons_None:
  "find_field fs (unquote k) = None \<Longrightarrow>
   object fs store ((k, v) # ms) s saved = object fs store ms s saved"
  by simp

lemma object_Cons_Inl:
  "find_field fs (unquote k) = Some f \<Longrightarrow> store f v s = Inl e \<Longrightarrow>
   object fs store ((k, v) # ms) s saved = Inl e"
  by simp

lemma store_eventIdentfier_eq:
  "store_eventIdentfier f j d =
     Inr (d\<lparr>ei_Event := fst (store_string j (ei_Event d))\<rparr>, snd (store_string j (ei_Event d)))"
  by (simp add: store_eventIdentfier_def split: prod.splits)

text \<open>
  Both decodings of a payload store the same members into the event field, so they end
  with the same event. \<open>ev\<close> reads the event field of the typed struct.
\<close>

lemma object_same_event:
  fixes store :: "event_field \<Rightarrow> json \<Rightarrow> 's \<Rightarrow> error + 's \<times> error option"
  assumes ev: "\<And>j d d' e. store Event j d = Inr (d', e) \<Longrightarrow> ev d' = fst (store_string j (ev d))"
    and dt: "\<And>j d d' e. store Data j d = Inr (d', e) \<Longrightarrow> ev d' = ev d"
  shows "object eventIdentfier_fields store_eventIdentfier ms a sa = Inr (a', sa') \<Longrightarrow>
         object payment_fields store ms b sb = Inr (b', sb') \<Longrightarrow>
         ei_Event a = ev b \<Longrightarrow> ei_Event a' = ev b'"
proof (induction ms arbitrary: a sa b sb)
  case Nil
  then show ?case by simp
next
  case (Cons m ms)
  obtain k v where m: "m = (k, v)" by (cases m)
  show ?case
  proof (cases "find_field payment_fields (unquote k)")
    case None
    then have "find_field eventIdentfier_fields (unquote k) = None"
      by (simp add: find_field_envelope_None)
    with None Cons m show ?thesis by simp
  next
    case (Some f)
    show ?thesis
    proof (cases f)
      case Event
      with Some have e: "find_field eventIdentfier_fields (unquote k) = Some Event"
        using find_field_payment by simp
      from Cons.prems(2) Some Event m obtain b1 e1 where
        b1: "store Event v b = Inr (b1, e1)"
        and rest: "object payment_fields store ms b1 (saveError sb e1) = Inr (b', sb')"
        by (auto split: sum.splits)
      define a1 where "a1 = a\<lparr>ei_Event := fst (store_string v (ei_Event a))\<rparr>"
      define ea where "ea = snd (store_string v (ei_Event a))"
      have sa1: "store_eventIdentfier Event v a = Inr (a1, ea)"
        unfolding a1_def ea_def by (rule store_eventIdentfier_eq)
      have resta: "object eventIdentfier_fields store_eventIdentfier ms a1 (saveError sa ea) = Inr (a', sa')"
        using Cons.prems(1)
        unfolding m object_Cons_Some[where store = store_eventIdentfier, OF e sa1] .
      have "ei_Event a1 = ev b1"
        using a1_def ev[OF b1] Cons.prems(3) by simp
      then show ?thesis using Cons.IH[OF resta rest] by simp
    next
      case Data
      with Some have e: "find_field eventIdentfier_fields (unquote k) = None"
        by (simp add: find_field_envelope_None)
      from Cons.prems(2) Some Data m obtain b1 e1 where
        b1: "store Data v b = Inr (b1, e1)"
        and rest: "object payment_fields store ms b1 (saveError sb e1) = Inr (b', sb')"
        by (auto split: sum.splits)
      from Cons.prems(1) e m have
        resta: "object eventIdentfier_fields store_eventIdentfier ms a sa = Inr (a', sa')"
        by simp
      have "ei_Event a = ev b1" using dt[OF b1] Cons.prems(3) by simp
      then show ?thesis using Cons.IH[OF resta rest] by simp
    qed
  qed
qed

lemma Unmarshal_eventIdentfier_cases:
  assumes "Unmarshal value_eventIdentfier j zero_eventIdentfier = Inr ei"
  shows "(j = JNull \<and> ei = zero_eventIdentfier) \<or>
         (\<exists>ms. j = JObject ms \<and>
            object eventIdentfier_fields store_eventIdentfier ms zero_eventIdentfier None = Inr (ei, None))"
  using assms
  by (cases j) (auto simp: Unmarshal_def value_eventIdentfier_def struct_value_def
      split: sum.splits option.splits)

lemma pending_same_event:
  assumes "Unmarshal value_eventIdentfier j zero_eventIdentfier = Inr ei"
    and "Unmarshal (value_paymentPending rfc3339) j zero_paymentPending = Inr pp"
  shows "pp_Event pp = ei_Event ei"
proof -
  from Unmarshal_eventIdentfier_cases[OF assms(1)] show ?thesis
  proof (elim disjE conjE exE)
    assume "j = JNull" "ei = zero_eventIdentfier"
    with assms(2) show ?thesis
      by (auto simp: Unmarshal_def value_paymentPending_def struct_value_def
          zero_eventIdentfier_def zero_paymentPending_def)
  next
    fix ms
    assume j: "j = JObject ms"
      and a: "object eventIdentfier_fields store_eventIdentfier ms zero_eventIdentfier None = Inr (ei, None)"
    from assms(2) j have
      b: "object payment_fields (store_paymentPending rfc3339) ms zero_paymentPending None = Inr (pp, None)"
      by (auto simp: Unmarshal_def value_paymentPending_def struct_value_def
          split: sum.splits option.splits)
    have "ei_Event ei = pp_Event pp"
      by (rule object_same_event[where store = "store_paymentPending rfc3339" and ev = pp_Event, OF _ _ a b])
         (auto simp: zero_eventIdentfier_def zero_paymentPending_def split: sum.splits prod.splits)
    then show ?thesis by simp
  qed
qed

lemma successful_same_event:
  assumes "Unmarshal value_eventIdentfier j zero_eventIdentfier = Inr ei"
    and "Unmarshal (value_paymentSuccessful rfc3339) j zero_paymentSuccessful = Inr ps"
  shows "ps_Event ps = ei_Event ei"
proof -
  from Unmarshal_eventIdentfier_cases[OF assms(1)] show ?thesis
  proof (elim disjE conjE exE)
    assume "j = JNull" "ei = zero_eventIdentfier"
    with assms(2) show ?thesis
      by (auto simp: Unmarshal_def value_paymentSuccessful_def struct_value_def
          zero_eventIdentfier_def zero_paymentSuccessful_def)
  next
    fix ms
    assume j: "j = JObject ms"
      and a: "object eventIdentfier_fields store_eventIdentfier ms zero_eventIdentfier None = Inr (ei, None)"
    from assms(2) j have
      b: "object payment_fields (store_paymentSuccessful rfc3339) ms zero_paymentSuccessful None = Inr (ps, None)"
      by (auto simp: Unmarshal_def value_paymentSuccessful_def struct_value_def
          split: sum.splits option.splits)
    have "ei_Event ei = ps_Event ps"
      by (rule object_same_event[where store = "store_paymentSuccessful rfc3339" and ev = ps_Event, OF _ _ a b])
         (auto simp: zero_eventIdentfier_def zero_paymentSuccessful_def split: sum.splits prod.splits)
    then show ?thesis by simp
  qed
qed

subsection \<open>The health endpoint\<close>

lemma HealthCheck_fresh:
  "HealthCheck l (new_writer False) r =
     (l, \<lparr>Header = [], status = Some 200,
          written = [[(''data'', GoString ''Hello from localhost:3000'')]], broken = False\<rparr>)"
  by (simp add: HealthCheck_def Encode_def WriteHeader_def new_writer_def)

text \<open>
  Claim C8. For every sequence of calls to the health endpoint, each call returns status
  200 with the same body, the one JSON object \<^verbatim>\<open>{"data":"Hello from localhost:3000"}\<close>:
  whatever the requests are and whatever has been logged before, every response is the
  same, and the handler logs nothing and keeps no state.
\<close>

theorem health_idempotent_stateless:
  "serve HealthCheck l rs =
     (l, replicate (length rs)
           \<lparr>Header = [], status = Some 200,
            written = [[(''data'', GoString ''Hello from localhost:3000'')]], broken = False\<rparr>)"
  by (induction rs) (simp_all add: HealthCheck_fresh)

subsection \<open>A body the decoder cannot read\<close>

text \<open>
  Claim C4, as amended. For every request body from which the decoder cannot read a first
  JSON value (an empty or blank body, or bytes that do not begin with a complete JSON
  value), the dispatch fails: the error is logged and the handler returns with the writer
  as it was, so that a fresh response has no body, no header and no explicit status, and
  goes out as 200. Such a body is never valid JSON.
\<close>

theorem malformed_payload_no_response:
  assumes "Decoder_Decode (Body r) = Inl e"
  shows "\<not> Valid (Body r) \<and>
         HandleDynamicAPI rfc3339 user l w r =
           (l @ [(INFO, ''This API is connected'', [(''user'', StringValue user)]),
                 (ERROR, ''error decoding json response'', [(''error context'', AnyValue e)])], w) \<and>
         written (snd (HandleDynamicAPI rfc3339 user l (new_writer b) r)) = [] \<and>
         status (snd (HandleDynamicAPI rfc3339 user l (new_writer b) r)) = None \<and>
         response_status (snd (HandleDynamicAPI rfc3339 user l (new_writer b) r)) = 200"
  using assms Decode_error_invalid[OF assms]
  by (simp add: HandleDynamicAPI_def Info_def Error_def new_writer_def response_status_def)

theorem malformed_payload_witness:
  \<open>Decoder_Decode ''not json at all'' = Inl SyntaxError \<and>
   \<not> Valid ''not json at all'' \<and>
   HandleDynamicAPI (\<lambda>s. True) ''dev'' [] (new_writer False) \<lparr>Body = ''not json at all''\<rparr> =
     ([(INFO, ''This API is connected'', [(''user'', StringValue ''dev'')]),
       (ERROR, ''error decoding json response'', [(''error context'', AnyValue SyntaxError)])],
      new_writer False)\<close>
proof -
  have h: "Decoder_Decode (Body \<lparr>Body = ''not json at all''\<rparr>) = Inl SyntaxError"
    by code_simp
  from malformed_payload_no_response[OF h, of "\<lambda>s. True" "''dev''" "[]" "new_writer False"] h
  show ?thesis by simp
qed

text \<open>
  Claim C4 as stated fails: a body that is a JSON value followed by other bytes is not
  valid JSON, but the decoder reads the value and leaves the rest, and the handler
  dispatches on it. Here it answers 500.
\<close>

theorem trailing_bytes_dispatched:
  \<open>\<not> Valid ''{"event":"unknown.kind"} trailing'' \<and>
   HandleDynamicAPI (\<lambda>s. True) ''dev'' [] (new_writer False)
       \<lparr>Body = ''{"event":"unknown.kind"} trailing''\<rparr> =
     ([(INFO, ''This API is connected'', [(''user'', StringValue ''dev'')]),
       (INFO, ''no event type found'', [(''response event title'', StringValue ''unknown.kind'')])],
      \<lparr>Header = [], status = Some 500, written = [], broken = False\<rparr>)\<close>
  by code_simp

subsection \<open>The response to a recognized event\<close>

lemma handler_pending_ok:
  assumes "Decoder_Decode (Body r) = Inr j"
    and "Unmarshal value_eventIdentfier j zero_eventIdentfier = Inr ei"
    and "ei_Event ei = ''paymentrequest.pending''"
    and "Unmarshal (value_paymentPending rfc3339) j zero_paymentPending = Inr pp"
    and "\<not> broken w" and "status w = None"
  shows "snd (HandleDynamicAPI rfc3339 user l w r) =
           w\<lparr>Header := Header w @ [(''Content-Type'', ''application/json'')],
             status := Some 200,
             written := written w @
               [[(''event type'', GoString (ei_Event ei)),
                 (''amount'', GoInt (pd_Amount (pp_Data pp)))]]\<rparr>"
  using assms pending_same_event[OF assms(2) assms(4)]
  by (simp add: HandleDynamicAPI_def Info_def Encode_def Header_Add_def WriteHeader_def)

lemma handler_successful_ok:
  assumes "Decoder_Decode (Body r) = Inr j"
    and "Unmarshal value_eventIdentfier j zero_eventIdentfier = Inr ei"
    and "ei_Event ei = ''paymentrequest.success''"
    and "Unmarshal (value_paymentSuccessful rfc3339) j zero_paymentSuccessful = Inr ps"
    and "\<not> broken w" and "status w = None"
  shows "snd (HandleDynamicAPI rfc3339 user l w r) =
           w\<lparr>Header := Header w @ [(''Content-Type'', ''application/json'')],
             status := Some 200,
             written := written w @
               [[(''event type'', GoString (ei_Event ei)),
                 (''description'', GoString (sd_Description (ps_Data ps)))]]\<rparr>"
  using assms successful_same_event[OF assms(2) assms(4)]
  by (simp add: HandleDynamicAPI_def Info_def Encode_def Header_Add_def WriteHeader_def)

subsection \<open>Any other event\<close>

text \<open>
  Claim C3, as amended. For every payload the decoder reads whose envelope decodes and
  whose event is neither of the two recognized strings, the handler sends status 500, with
  no body and no header. And whatever the request, a header is added only when the event
  is one of the two recognized strings and the payload has decoded into the struct of that
  kind.
\<close>

theorem unrecognized_event_500:
  assumes "Decoder_Decode (Body r) = Inr j"
    and "Unmarshal value_eventIdentfier j zero_eventIdentfier = Inr ei"
    and "ei_Event ei \<noteq> ''paymentrequest.pending''"
    and "ei_Event ei \<noteq> ''paymentrequest.success''"
    and "status w = None"
  shows "HandleDynamicAPI rfc3339 user l w r =
           (l @ [(INFO, ''This API is connected'', [(''user'', StringValue user)]),
                 (INFO, ''no event type found'', [(''response event title'', StringValue (ei_Event ei))])],
            w\<lparr>status := Some 500\<rparr>) \<and>
         (\<forall>r' l' w'. Header (snd (HandleDynamicAPI rfc3339 user l' w' r')) \<noteq> Header w' \<longrightarrow>
            (\<exists>j' ei'. Decoder_Decode (Body r') = Inr j' \<and>
               Unmarshal value_eventIdentfier j' zero_eventIdentfier = Inr ei' \<and>
               ((ei_Event ei' = ''paymentrequest.pending'' \<and>
                 (\<exists>pp. Unmarshal (value_paymentPending rfc3339) j' zero_paymentPending = Inr pp)) \<or>
                (ei_Event ei' = ''paymentrequest.success'' \<and>
                 (\<exists>ps. Unmarshal (value_paymentSuccessful rfc3339) j' zero_paymentSuccessful = Inr ps)))))"
proof (intro conjI allI impI)
  show "HandleDynamicAPI rfc3339 user l w r =
           (l @ [(INFO, ''This API is connected'', [(''user'', StringValue user)]),
                 (INFO, ''no event type found'', [(''response event title'', StringValue (ei_Event ei))])],
            w\<lparr>status := Some 500\<rparr>)"
    using assms by (simp add: HandleDynamicAPI_def Info_def WriteHeader_def)
next
  fix r' l' w'
  assume "Header (snd (HandleDynamicAPI rfc3339 user l' w' r')) \<noteq> Header w'"
  then show "\<exists>j' ei'. Decoder_Decode (Body r') = Inr j' \<and>
               Unmarshal value_eventIdentfier j' zero_eventIdentfier = Inr ei' \<and>
               ((ei_Event ei' = ''paymentrequest.pending'' \<and>
                 (\<exists>pp. Unmarshal (value_paymentPending rfc3339) j' zero_paymentPending = Inr pp)) \<or>
                (ei_Event ei' = ''paymentrequest.success'' \<and>
                 (\<exists>ps. Unmarshal (value_paymentSuccessful rfc3339) j' zero_paymentSuccessful = Inr ps)))"
    by (auto simp: HandleDynamicAPI_def Let_def WriteHeader_def
        split: sum.splits if_splits)
qed

theorem unrecognized_event_witness:
  \<open>HandleDynamicAPI (\<lambda>s. True) ''dev'' [] (new_writer False) \<lparr>Body = ''{"event":"unknown.kind"}''\<rparr> =
     ([(INFO, ''This API is connected'', [(''user'', StringValue ''dev'')]),
       (INFO, ''no event type found'', [(''response event title'', StringValue ''unknown.kind'')])],
      \<lparr>Header = [], status = Some 500, written = [], broken = False\<rparr>) \<and>
   Header (snd (HandleDynamicAPI (\<lambda>s. True) ''dev'' [] (new_writer False)
                 \<lparr>Body = ''{"event":"paymentrequest.pending"}''\<rparr>)) \<noteq> Header (new_writer False)\<close>
proof -
  let ?j = "JObject [(''event'', JString ''unknown.kind'')]"
  have d: \<open>Decoder_Decode (Body \<lparr>Body = ''{"event":"unknown.kind"}''\<rparr>) = Inr ?j\<close>
    by code_simp
  have e: "Unmarshal value_eventIdentfier ?j zero_eventIdentfier = Inr \<lparr>ei_Event = ''unknown.kind''\<rparr>"
    by code_simp
  have h: \<open>Header (snd (HandleDynamicAPI (\<lambda>s. True) ''dev'' [] (new_writer False)
                 \<lparr>Body = ''{"event":"paymentrequest.pending"}''\<rparr>)) \<noteq> Header (new_writer False)\<close>
    by code_simp
  from unrecognized_event_500[OF d e, of "new_writer False" "\<lambda>s. True" "''dev''" "[]"] h
  show ?thesis by (simp add: new_writer_def)
qed

text \<open>
  Claim C3 as stated fails: the payload \<^verbatim>\<open>{"event":5}\<close> is valid JSON and its event is
  neither of the two strings, but the envelope does not decode (a number for a string
  field), and the handler logs the error and returns with no status, which goes out as
  200.
\<close>

theorem event_of_other_type_no_500:
  \<open>Valid ''{"event":5}'' \<and>
   Decoder_Decode ''{"event":5}'' = Inr (JObject [(''event'', JNumber ''5'')]) \<and>
   HandleDynamicAPI (\<lambda>s. True) ''dev'' [] (new_writer False) \<lparr>Body = ''{"event":5}''\<rparr> =
     ([(INFO, ''This API is connected'', [(''user'', StringValue ''dev'')]),
       (ERROR, ''error unmarshalling json data message'',
          [(''error context'', AnyValue (UnmarshalTypeError ''number'' ''string''))])],
      new_writer False) \<and>
   response_status (new_writer False) = 200\<close>
  by code_simp

subsection \<open>A response that cannot be written\<close>

text \<open>
  With a writer that fails, the handler adds the header, fails to encode and returns: it
  sends no status and writes nothing. The branch of the pending event logs the failure;
  the branch of the successful event returns without a record of it.
\<close>

lemma encode_failure_pending:
  assumes "Decoder_Decode (Body r) = Inr j"
    and "Unmarshal value_eventIdentfier j zero_eventIdentfier = Inr ei"
    and "ei_Event ei = ''paymentrequest.pending''"
    and "Unmarshal (value_paymentPending rfc3339) j zero_paymentPending = Inr pp"
    and "broken w"
  shows "HandleDynamicAPI rfc3339 user l w r =
           (l @ [(INFO, ''This API is connected'', [(''user'', StringValue user)]),
                 (INFO, ''payment pending hook event'',
                    [(''response event title'', StringValue ''paymentrequest.pending'')]),
                 (ERROR, ''error encoding data to send as response'',
                    [(''error context'', AnyValue WriteError)])],
            w\<lparr>Header := Header w @ [(''Content-Type'', ''application/json'')]\<rparr>)"
  using assms
  by (simp add: HandleDynamicAPI_def Info_def Error_def Encode_def Header_Add_def)

lemma encode_failure_successful:
  assumes "Decoder_Decode (Body r) = Inr j"
    and "Unmarshal value_eventIdentfier j zero_eventIdentfier = Inr ei"
    and "ei_Event ei = ''paymentrequest.success''"
    and "Unmarshal (value_paymentSuccessful rfc3339) j zero_paymentSuccessful = Inr ps"
    and "broken w"
  shows "HandleDynamicAPI rfc3339 user l w r =
           (l @ [(INFO, ''This API is connected'', [(''user'', StringValue user)]),
                 (INFO, ''payment successful hook event'',
                    [(''response event title'', StringValue ''paymentrequest.success'')])],
            w\<lparr>Header := Header w @ [(''Content-Type'', ''application/json'')]\<rparr>)"
  using assms
  by (simp add: HandleDynamicAPI_def Info_def Error_def Encode_def Header_Add_def)

text \<open>
  Claim C7 says that on every branch a response that cannot be encoded or written is
  logged before the handler returns. On a successful payment event with a writer that
  fails, the handler returns with two records, neither of them an error, while on the
  same failure the pending branch logs it.
\<close>

theorem successful_encode_failure_not_logged:
  \<open>HandleDynamicAPI (\<lambda>s. True) ''dev'' [] (new_writer True)
       \<lparr>Body = ''{"event":"paymentrequest.success"}''\<rparr> =
     ([(INFO, ''This API is connected'', [(''user'', StringValue ''dev'')]),
       (INFO, ''payment successful hook event'',
          [(''response event title'', StringValue ''paymentrequest.success'')])],
      \<lparr>Header = [(''Content-Type'', ''application/json'')], status = None, written = [],
       broken = True\<rparr>) \<and>
   HandleDynamicAPI (\<lambda>s. True) ''dev'' [] (new_writer True)
       \<lparr>Body = ''{"event":"paymentrequest.pending"}''\<rparr> =
     ([(INFO, ''This API is connected'', [(''user'', StringValue ''dev'')]),
       (INFO, ''payment pending hook event'',
          [(''response event title'', StringValue ''paymentrequest.pending'')]),
       (ERROR, ''error encoding data to send as response'',
          [(''error context'', AnyValue WriteError)])],
      \<lparr>Header = [(''Content-Type'', ''application/json'')], status = None, written = [],
       broken = True\<rparr>)\<close>
  by code_simp

subsection \<open>One schema for each event\<close>










subsection \<open>The event identifier extractor\<close>

lemma find_field_envelope:
  "find_field eventIdentfier_fields key = (if equalFold ''event'' key then Some Event else None)"
  by (auto simp: find_field_def eventIdentfier_fields_def equalFold_def split: option.splits)

lemma object_eventIdentfier:
  "\<exists>saved'. object eventIdentfier_fields store_eventIdentfier ms a saved =
       Inr (a\<lparr>ei_Event := (if event_strings ms = [] then ei_Event a else last (event_strings ms))\<rparr>, saved') \<and>
     (saved' = None \<longleftrightarrow> saved = None \<and> envelope_ok ms)"
proof (induction ms arbitrary: a saved)
  case Nil
  then show ?case by (simp add: event_strings_def envelope_ok_def)
next
  case (Cons m ms)
  obtain k v where m: "m = (k, v)" by (cases m)
  show ?case
  proof (cases "names_event k")
    case False
    then have f: "find_field eventIdentfier_fields (unquote k) = None"
      by (simp add: find_field_envelope names_event_def)
    have es: "event_strings (m # ms) = event_strings ms" "envelope_ok (m # ms) = envelope_ok ms"
      using False m by (auto simp: event_strings_def envelope_ok_def split: json.splits)
    show ?thesis
      unfolding m object_Cons_None[where store = store_eventIdentfier, OF f] es[unfolded m]
      by (rule Cons.IH)
  next
    case True
    then have f: "find_field eventIdentfier_fields (unquote k) = Some Event"
      by (simp add: find_field_envelope names_event_def)
    define a1 where "a1 = a\<lparr>ei_Event := fst (store_string v (ei_Event a))\<rparr>"
    define e1 where "e1 = snd (store_string v (ei_Event a))"
    have st: "store_eventIdentfier Event v a = Inr (a1, e1)"
      unfolding a1_def e1_def by (rule store_eventIdentfier_eq)
    from Cons.IH[of a1 "saveError saved e1"] obtain saved' where
      ih: "object eventIdentfier_fields store_eventIdentfier ms a1 (saveError saved e1) =
             Inr (a1\<lparr>ei_Event := (if event_strings ms = [] then ei_Event a1 else last (event_strings ms))\<rparr>, saved')"
      and sv: "saved' = None \<longleftrightarrow> saveError saved e1 = None \<and> envelope_ok ms"
      by blast
    have ev: "(if event_strings ms = [] then ei_Event a1 else last (event_strings ms)) =
              (if event_strings (m # ms) = [] then ei_Event a else last (event_strings (m # ms)))"
      using True m by (cases v) (auto simp: event_strings_def a1_def)
    have ok: "(saveError saved e1 = None \<and> envelope_ok ms) \<longleftrightarrow> (saved = None \<and> envelope_ok (m # ms))"
      using True m by (cases v; cases saved) (auto simp: envelope_ok_def e1_def saveError_def)
    have upd: "a1\<lparr>ei_Event := x\<rparr> = a\<lparr>ei_Event := x\<rparr>" for x
      by (simp add: a1_def)
    show ?thesis
      unfolding m object_Cons_Some[where store = store_eventIdentfier, OF f st]
      using ih sv ev ok upd m by auto
  qed
qed

lemma Unmarshal_eventIdentfier_object:
  "Unmarshal value_eventIdentfier (JObject ms) zero_eventIdentfier =
     (if envelope_ok ms then Inr \<lparr>ei_Event = envelope_event ms\<rparr>
      else Inl (the (snd (projr (object eventIdentfier_fields store_eventIdentfier ms zero_eventIdentfier None)))))"
proof -
  from object_eventIdentfier[of ms zero_eventIdentfier None] obtain saved' where
    o: "object eventIdentfier_fields store_eventIdentfier ms zero_eventIdentfier None =
          Inr (zero_eventIdentfier\<lparr>ei_Event := envelope_event ms\<rparr>, saved')"
    and sv: "saved' = None \<longleftrightarrow> envelope_ok ms"
    by (auto simp: envelope_event_def zero_eventIdentfier_def)
  have z: "zero_eventIdentfier\<lparr>ei_Event := envelope_event ms\<rparr> = \<lparr>ei_Event = envelope_event ms\<rparr>"
    by (simp add: zero_eventIdentfier_def)
  show ?thesis
    using sv by (cases saved') (simp_all add: Unmarshal_def value_eventIdentfier_def struct_value_def o z)
qed

lemma envelope_error_returns:
  assumes "Decoder_Decode (Body r) = Inr j"
    and "Unmarshal value_eventIdentfier j zero_eventIdentfier = Inl e"
  shows "HandleDynamicAPI rfc3339 user l w r =
           (l @ [(INFO, ''This API is connected'', [(''user'', StringValue user)]),
                 (ERROR, ''error unmarshalling json data message'', [(''error context'', AnyValue e)])], w)"
  using assms by (simp add: HandleDynamicAPI_def Info_def Error_def)

text \<open>
  Claim C6, as amended. For every input that is valid JSON the decoder reads a value. From
  \<^verbatim>\<open>null\<close> the extractor yields the empty string; from an object whose event members are
  strings or \<^verbatim>\<open>null\<close> it yields the string of the last event member that is a string, or
  the empty string when there is none. From an object with an event member of another
  type, and from a value that is not an object or \<^verbatim>\<open>null\<close>, it fails with a type error,
  and this failure, like that of bytes that are not JSON, is a hard failure: the handler
  logs it and returns with the writer as it was.
\<close>

theorem extractor_yields_event_or_fails:
  assumes "Valid (Body r)"
  shows "\<exists>j. Decoder_Decode (Body r) = Inr j \<and>
           (case j of
              JNull \<Rightarrow>
                Unmarshal value_eventIdentfier j zero_eventIdentfier = Inr \<lparr>ei_Event = []\<rparr>
            | JObject ms \<Rightarrow>
                if envelope_ok ms
                then Unmarshal value_eventIdentfier j zero_eventIdentfier =
                       Inr \<lparr>ei_Event = envelope_event ms\<rparr>
                else \<exists>e. Unmarshal value_eventIdentfier j zero_eventIdentfier = Inl e
            | _ \<Rightarrow>
                Unmarshal value_eventIdentfier j zero_eventIdentfier =
                  Inl (UnmarshalTypeError (json_kind j) ''main.eventIdentfier'')) \<and>
           (\<forall>e. Unmarshal value_eventIdentfier j zero_eventIdentfier = Inl e \<longrightarrow>
              HandleDynamicAPI rfc3339 user l w r =
                (l @ [(INFO, ''This API is connected'', [(''user'', StringValue user)]),
                      (ERROR, ''error unmarshalling json data message'',
                         [(''error context'', AnyValue e)])], w))"
proof -
  from Valid_Decode[OF assms] obtain j where d: "Decoder_Decode (Body r) = Inr j" ..
  have "case j of
              JNull \<Rightarrow>
                Unmarshal value_eventIdentfier j zero_eventIdentfier = Inr \<lparr>ei_Event = []\<rparr>
            | JObject ms \<Rightarrow>
                if envelope_ok ms
                then Unmarshal value_eventIdentfier j zero_eventIdentfier =
                       Inr \<lparr>ei_Event = envelope_event ms\<rparr>
                else \<exists>e. Unmarshal value_eventIdentfier j zero_eventIdentfier = Inl e
            | _ \<Rightarrow>
                Unmarshal value_eventIdentfier j zero_eventIdentfier =
                  Inl (UnmarshalTypeError (json_kind j) ''main.eventIdentfier'')"
  proof (cases j)
    case (JObject ms)
    then show ?thesis by (simp add: Unmarshal_eventIdentfier_object)
  qed (simp_all add: Unmarshal_def value_eventIdentfier_def struct_value_def zero_eventIdentfier_def)
  with d envelope_error_returns[OF d] show ?thesis by blast
qed

theorem extractor_witness:
  \<open>Valid ''{"Event":"a.b","id":7,"event":null}'' \<and>
   Unmarshal value_eventIdentfier
       (JObject [(''Event'', JString ''a.b''), (''id'', JNumber ''7''), (''event'', JNull)])
       zero_eventIdentfier = Inr \<lparr>ei_Event = ''a.b''\<rparr>\<close>
proof -
  let ?ms = "[(''Event'', JString ''a.b''), (''id'', JNumber ''7''), (''event'', JNull)]"
  have v: \<open>Valid (Body \<lparr>Body = ''{"Event":"a.b","id":7,"event":null}''\<rparr>)\<close>
    by code_simp
  have d: \<open>Decoder_Decode (Body \<lparr>Body = ''{"Event":"a.b","id":7,"event":null}''\<rparr>) = Inr (JObject ?ms)\<close>
    by code_simp
  have ok: "envelope_ok ?ms" by code_simp
  have ev: "envelope_event ?ms = ''a.b''" by code_simp
  from extractor_yields_event_or_fails[OF v, of "\<lambda>s. True" "''dev''" "[]" "new_writer False"] d ok ev v
  show ?thesis by auto
qed

text \<open>
  Claim C6 as stated fails: an array is valid JSON that does not have the shape of the
  envelope, and the extractor does not yield the empty string for it but fails, so the
  handler returns without a status instead of taking the path of an unrecognized kind.
\<close>

theorem extractor_fails_on_array:
  \<open>Valid ''[{"event":"paymentrequest.pending"}]'' \<and>
   Decoder_Decode ''[{"event":"paymentrequest.pending"}]'' =
     Inr (JArray [JObject [(''event'', JString ''paymentrequest.pending'')]]) \<and>
   Unmarshal value_eventIdentfier (JArray [JObject [(''event'', JString ''paymentrequest.pending'')]])
       zero_eventIdentfier = Inl (UnmarshalTypeError ''array'' ''main.eventIdentfier'') \<and>
   HandleDynamicAPI (\<lambda>s. True) ''dev'' [] (new_writer False)
       \<lparr>Body = ''[{"event":"paymentrequest.pending"}]''\<rparr> =
     ([(INFO, ''This API is connected'', [(''user'', StringValue ''dev'')]),
       (ERROR, ''error unmarshalling json data message'',
          [(''error context'', AnyValue (UnmarshalTypeError ''array'' ''main.eventIdentfier''))])],
      new_writer False)\<close>
  by code_simp

subsection \<open>Absent fields\<close>

lemma foldl_saveError_None:
  "foldl saveError a es = None \<longleftrightarrow> a = None \<and> (\<forall>e\<in>set es. e = None)"
  by (induction es arbitrary: a) (auto simp: saveError_def split: option.splits)

lemma first_error_None: "first_error es = None \<longleftrightarrow> (\<forall>e\<in>set es. e = None)"
  by (simp add: first_error_def foldl_saveError_None)

lemma saveError_None: "saveError saved e = None \<longleftrightarrow> saved = None \<and> e = None"
  by (auto simp: saveError_def split: option.splits)

lemma find_field_map:
  "find_field (map (\<lambda>nf. (fst nf, g (snd nf))) fs) key = map_option g (find_field fs key)"
proof -
  have m: "map_of (map (\<lambda>nf. (fst nf, g (snd nf))) fs) key = map_option g (map_of fs key)"
    by (induction fs) auto
  have f: "find (\<lambda>(name, f). equalFold name key) (map (\<lambda>nf. (fst nf, g (snd nf))) fs) =
           map_option (\<lambda>nf. (fst nf, g (snd nf))) (find (\<lambda>(name, f). equalFold name key) fs)"
    by (induction fs) (auto split: prod.splits)
  show ?thesis
    by (auto simp: find_field_def m f split: option.splits)
qed

lemma store_string_ok: "snd (store_string j cur) = None \<longleftrightarrow> accepts rfc3339 TString j"
  by (cases j) simp_all

lemma store_int_ok: "snd (store_int j cur) = None \<longleftrightarrow> accepts rfc3339 TInt j"
  by (cases j) (simp_all split: option.splits)

lemma store_bool_ok: "snd (store_bool j cur) = None \<longleftrightarrow> accepts rfc3339 TBool j"
  by (cases j) simp_all

lemma store_any_ok: "snd (store_any j cur) = None \<longleftrightarrow> accepts rfc3339 TAny j"
  by (simp add: store_any_def)

lemma store_slice_any_ok: "snd (store_slice_any j cur) = None \<longleftrightarrow> accepts rfc3339 (TSlice TAny) j"
  by (cases j) (auto simp: first_error_None list_all_iff)

lemma store_time_ok: "(\<exists>x. store_time rfc3339 j cur = Inr x) \<longleftrightarrow> accepts rfc3339 TTime j"
  by (cases j) simp_all


lemma accepts_struct_Nil: "accepts rfc3339 (struct_type fs ty) (JObject [])"
  by (simp add: struct_type_def)

lemma accepts_struct_Cons:
  "accepts rfc3339 (struct_type fs ty) (JObject ((k, v) # ms)) \<longleftrightarrow>
     (case find_field fs (unquote k) of None \<Rightarrow> True | Some f \<Rightarrow> accepts rfc3339 (ty f) v) \<and>
     accepts rfc3339 (struct_type fs ty) (JObject ms)"
  by (simp add: struct_type_def find_field_map split: option.splits)

lemma accepts_struct_JNull: "accepts rfc3339 (struct_type fs ty) JNull"
  by (simp add: struct_type_def)

lemma accepts_struct_other:
  "j \<noteq> JNull \<Longrightarrow> (\<forall>ms. j \<noteq> JObject ms) \<Longrightarrow> \<not> accepts rfc3339 (struct_type fs ty) j"
  by (cases j) (simp_all add: struct_type_def)

lemma object_succeeds_iff:
  fixes store :: "'f \<Rightarrow> json \<Rightarrow> 's \<Rightarrow> error + 's \<times> error option"
  assumes ok: "\<And>f v s. (\<exists>s'. store f v s = Inr (s', None)) \<longleftrightarrow> accepts rfc3339 (ty f) v"
  shows "(\<exists>s'. object fs store ms s saved = Inr (s', None)) \<longleftrightarrow>
         saved = None \<and> accepts rfc3339 (struct_type fs ty) (JObject ms)"
proof (induction ms arbitrary: s saved)
  case Nil
  then show ?case by (auto simp: accepts_struct_Nil)
next
  case (Cons m ms)
  obtain k v where m: "m = (k, v)" by (cases m)
  show ?case
  proof (cases "find_field fs (unquote k)")
    case None
    show ?thesis
      unfolding m object_Cons_None[where store = store, OF None] accepts_struct_Cons
      using Cons.IH None by simp
  next
    case (Some f)
    show ?thesis
    proof (cases "store f v s")
      case (Inl e)
      then have "\<not> accepts rfc3339 (ty f) v" using ok[of f v s] by auto
      then show ?thesis
        unfolding m object_Cons_Inl[where store = store, OF Some Inl] accepts_struct_Cons
        using Some by simp
    next
      case (Inr p)
      obtain s1 e1 where p: "p = (s1, e1)" by (cases p)
      have e1: "e1 = None \<longleftrightarrow> accepts rfc3339 (ty f) v"
        using ok[of f v s] Inr p by auto
      show ?thesis
        unfolding m object_Cons_Some[where store = store, OF Some Inr[unfolded p]] accepts_struct_Cons
        using Cons.IH[of s1 "saveError saved e1"] Some e1 by (auto simp: saveError_None)
    qed
  qed
qed

lemma struct_value_succeeds_iff:
  fixes store :: "'f \<Rightarrow> json \<Rightarrow> 's \<Rightarrow> error + 's \<times> error option"
  assumes ok: "\<And>f v s. (\<exists>s'. store f v s = Inr (s', None)) \<longleftrightarrow> accepts rfc3339 (ty f) v"
  shows "(\<exists>s'. struct_value tname fs store j s = Inr (s', None)) \<longleftrightarrow>
         accepts rfc3339 (struct_type fs ty) j"
proof (cases j)
  case (JObject ms)
  then show ?thesis
    using object_succeeds_iff[where store = store and ty = ty, OF ok, of fs ms s None]
    by (simp add: struct_value_def)
qed (simp_all add: struct_value_def struct_type_def)

lemma Unmarshal_succeeds_iff:
  "(\<exists>s'. Unmarshal val j s = Inr s') \<longleftrightarrow> (\<exists>s'. val j s = Inr (s', None))"
  by (auto simp: Unmarshal_def split: sum.splits option.splits prod.splits)


lemma store_pendingData_ok:
  "(\<exists>d'. store_pendingData rfc3339 f v d = Inr (d', None)) \<longleftrightarrow> accepts rfc3339 (pending_type f) v"
proof (cases f)
  case CreatedAt
  then show ?thesis
    using store_time_ok[of rfc3339 v "pd_CreatedAt d"] by (auto split: sum.splits)
qed (simp_all add: case_prod_beta store_string_ok[of _ _ rfc3339] store_int_ok[of _ _ rfc3339]
      store_bool_ok[of _ _ rfc3339] store_any_ok[of _ _ rfc3339] store_slice_any_ok[of _ _ rfc3339]
      del: accepts.simps)


lemma store_paymentPending_ok:
  "(\<exists>d'. store_paymentPending rfc3339 f v d = Inr (d', None)) \<longleftrightarrow>
   accepts rfc3339 (payment_type pending_type f) v"
proof (cases f)
  case Event
  then show ?thesis
    by (simp add: case_prod_beta store_string_ok[of _ _ rfc3339] del: accepts.simps)
next
  case Data
  have "(\<exists>d'. store_paymentPending rfc3339 Data v d = Inr (d', None)) \<longleftrightarrow>
        (\<exists>x. struct_value ''struct'' data_fields (store_pendingData rfc3339) v (pp_Data d) = Inr (x, None))"
    by (auto split: sum.splits prod.splits)
  with Data show ?thesis
    using struct_value_succeeds_iff[where store = "store_pendingData rfc3339" and ty = pending_type
        , OF store_pendingData_ok, of "''struct''" data_fields v "pp_Data d"]
    by simp
qed

lemma Unmarshal_paymentPending_iff:
  "(\<exists>pp. Unmarshal (value_paymentPending rfc3339) j s = Inr pp) \<longleftrightarrow>
   accepts rfc3339 paymentPending_type j"
  unfolding Unmarshal_succeeds_iff value_paymentPending_def paymentPending_type_def
  by (rule struct_value_succeeds_iff[where store = "store_paymentPending rfc3339"
        and ty = "payment_type pending_type", OF store_paymentPending_ok])

lemma store_notification_ok:
  "(\<exists>d'. store_notification rfc3339 f v d = Inr (d', None)) \<longleftrightarrow>
   accepts rfc3339 (notification_type f) v"
proof (cases f)
  case SentAt
  then show ?thesis
    using store_time_ok[of rfc3339 v "n_SentAt d"] by (auto split: sum.splits)
next
  case Channel
  then show ?thesis
    by (simp add: case_prod_beta store_string_ok[of _ _ rfc3339] del: accepts.simps)
qed

lemma notification_value_ok:
  "(\<exists>s'. struct_value tname notification_fields (store_notification rfc3339) j s = Inr (s', None)) \<longleftrightarrow>
   accepts rfc3339 (struct_type notification_fields notification_type) j"
  by (rule struct_value_succeeds_iff[where store = "store_notification rfc3339"
        and ty = notification_type, OF store_notification_ok])

lemma array_notifications_ok:
  "(\<exists>ns. array_notifications rfc3339 vs old saved = Inr (ns, None)) \<longleftrightarrow>
   saved = None \<and> list_all (accepts rfc3339 (struct_type notification_fields notification_type)) vs"
proof (induction vs arbitrary: old saved)
  case Nil
  then show ?case by auto
next
  case (Cons v vs)
  let ?n = "case old of [] \<Rightarrow> zero_notification | n # ns \<Rightarrow> n"
  show ?case
  proof (cases "struct_value ''struct'' notification_fields (store_notification rfc3339) v ?n")
    case (Inl e)
    then have "\<not> accepts rfc3339 (struct_type notification_fields notification_type) v"
      using notification_value_ok[of "''struct''" rfc3339 v ?n] by auto
    with Inl show ?thesis by simp
  next
    case (Inr p)
    obtain n' e where p: "p = (n', e)" by (cases p)
    have e: "e = None \<longleftrightarrow> accepts rfc3339 (struct_type notification_fields notification_type) v"
      using notification_value_ok[of "''struct''" rfc3339 v ?n] Inr p by auto
    have "(\<exists>ns. array_notifications rfc3339 (v # vs) old saved = Inr (ns, None)) \<longleftrightarrow>
          (\<exists>ns. array_notifications rfc3339 vs (tl old) (saveError saved e) = Inr (ns, None))"
      using Inr p by (auto split: sum.splits prod.splits)
    then show ?thesis
      using Cons.IH[of "tl old" "saveError saved e"] e by (auto simp: saveError_None)
  qed
qed

lemma store_notifications_ok:
  "(\<exists>x. store_notifications rfc3339 v cur = Inr (x, None)) \<longleftrightarrow>
   accepts rfc3339 (TSlice (struct_type notification_fields notification_type)) v"
  by (cases v) (simp_all add: array_notifications_ok)

lemma store_successData_ok:
  "(\<exists>d'. store_successData rfc3339 f v d = Inr (d', None)) \<longleftrightarrow> accepts rfc3339 (successful_type f) v"
proof (cases f)
  case CreatedAt
  then show ?thesis
    using store_time_ok[of rfc3339 v "sd_CreatedAt d"] by (auto split: sum.splits)
next
  case PaidAt
  then show ?thesis
    using store_time_ok[of rfc3339 v "sd_PaidAt d"] by (auto split: sum.splits)
next
  case Notifications
  have "(\<exists>d'. store_successData rfc3339 Notifications v d = Inr (d', None)) \<longleftrightarrow>
        (\<exists>x. store_notifications rfc3339 v (sd_Notifications d) = Inr (x, None))"
    by (auto split: sum.splits prod.splits)
  with Notifications show ?thesis by (simp add: store_notifications_ok del: accepts.simps)
qed (simp_all add: case_prod_beta store_string_ok[of _ _ rfc3339] store_int_ok[of _ _ rfc3339]
      store_bool_ok[of _ _ rfc3339] store_any_ok[of _ _ rfc3339] store_slice_any_ok[of _ _ rfc3339]
      del: accepts.simps)

lemma store_paymentSuccessful_ok:
  "(\<exists>d'. store_paymentSuccessful rfc3339 f v d = Inr (d', None)) \<longleftrightarrow>
   accepts rfc3339 (payment_type successful_type f) v"
proof (cases f)
  case Event
  then show ?thesis
    by (simp add: case_prod_beta store_string_ok[of _ _ rfc3339] del: accepts.simps)
next
  case Data
  have "(\<exists>d'. store_paymentSuccessful rfc3339 Data v d = Inr (d', None)) \<longleftrightarrow>
        (\<exists>x. struct_value ''struct'' data_fields (store_successData rfc3339) v (ps_Data d) = Inr (x, None))"
    by (auto split: sum.splits prod.splits)
  with Data show ?thesis
    using struct_value_succeeds_iff[where store = "store_successData rfc3339" and ty = successful_type
        , OF store_successData_ok, of "''struct''" data_fields v "ps_Data d"]
    by simp
qed

lemma Unmarshal_paymentSuccessful_iff:
  "(\<exists>ps. Unmarshal (value_paymentSuccessful rfc3339) j s = Inr ps) \<longleftrightarrow>
   accepts rfc3339 paymentSuccessful_type j"
  unfolding Unmarshal_succeeds_iff value_paymentSuccessful_def paymentSuccessful_type_def
  by (rule struct_value_succeeds_iff[where store = "store_paymentSuccessful rfc3339"
        and ty = "payment_type successful_type", OF store_paymentSuccessful_ok])



lemma store_pendingData_keeps_Amount:
  "f' \<noteq> Amount \<Longrightarrow> store_pendingData rfc3339 f' v d = Inr (d', e) \<Longrightarrow> pd_Amount d' = pd_Amount d"
  by (cases f') (auto split: prod.splits sum.splits)

lemma store_successData_keeps_Description:
  "f' \<noteq> Description \<Longrightarrow> store_successData rfc3339 f' v d = Inr (d', e) \<Longrightarrow>
   sd_Description d' = sd_Description d"
  by (cases f') (auto split: prod.splits sum.splits)








lemma store_eventIdentfier_ok:
  "(\<exists>d'. store_eventIdentfier f v d = Inr (d', None)) \<longleftrightarrow> accepts rfc3339 ((\<lambda>f. TString) f) v"
  by (simp add: store_eventIdentfier_eq store_string_ok[of _ _ rfc3339] del: accepts.simps)

lemma Unmarshal_eventIdentfier_iff:
  "(\<exists>ei. Unmarshal value_eventIdentfier j s = Inr ei) \<longleftrightarrow>
   accepts rfc3339 (struct_type eventIdentfier_fields (\<lambda>f. TString)) j"
  unfolding Unmarshal_succeeds_iff value_eventIdentfier_def
  by (rule struct_value_succeeds_iff[where store = store_eventIdentfier
        and ty = "\<lambda>f. TString", OF store_eventIdentfier_ok])




subsection \<open>The event, the amount and the description of a payload\<close>

lemma field_values_Nil: "field_values fs f val [] = []"
  by (simp add: field_values_def)

lemma field_values_Cons:
  "field_values fs f val ((k, v) # ms) =
     (if find_field fs (unquote k) = Some f then val v else []) @ field_values fs f val ms"
  by (simp add: field_values_def)

lemma object_last_value:
  fixes store :: "'f \<Rightarrow> json \<Rightarrow> 's \<Rightarrow> error + 's \<times> error option"
  assumes keep: "\<And>f' v s s' e. f' \<noteq> f \<Longrightarrow> store f' v s = Inr (s', e) \<Longrightarrow> get s' = get s"
    and put: "\<And>v s s' e. store f v s = Inr (s', e) \<Longrightarrow>
                get s' = (if val v = [] then get s else last (val v))"
  shows "object fs store ms s saved = Inr (s', saved') \<Longrightarrow>
         get s' = (if field_values fs f val ms = [] then get s else last (field_values fs f val ms))"
proof (induction ms arbitrary: s saved)
  case Nil
  then show ?case by (simp add: field_values_Nil)
next
  case (Cons m ms)
  obtain k v where m: "m = (k, v)" by (cases m)
  show ?case
  proof (cases "find_field fs (unquote k)")
    case None
    from Cons.prems have "object fs store ms s saved = Inr (s', saved')"
      unfolding m object_Cons_None[where store = store, OF None] .
    from Cons.IH[OF this] None show ?thesis
      unfolding m field_values_Cons by simp
  next
    case (Some f')
    show ?thesis
    proof (cases "store f' v s")
      case (Inl e)
      from Cons.prems show ?thesis
        unfolding m object_Cons_Inl[where store = store, OF Some Inl] by simp
    next
      case (Inr p)
      obtain s1 e1 where p: "p = (s1, e1)" by (cases p)
      from Cons.prems have "object fs store ms s1 (saveError saved e1) = Inr (s', saved')"
        unfolding m object_Cons_Some[where store = store, OF Some Inr[unfolded p]] .
      note ih = Cons.IH[OF this]
      show ?thesis
      proof (cases "f' = f")
        case True
        with put[of v s s1 e1] Inr p have "get s1 = (if val v = [] then get s else last (val v))"
          by simp
        with ih Some True show ?thesis
          unfolding m field_values_Cons
          by (cases "field_values fs f val ms = []"; cases "val v = []") simp_all
      next
        case False
        with keep[OF False Inr[unfolded p]] ih Some show ?thesis
          unfolding m field_values_Cons by simp
      qed
    qed
  qed
qed

lemma store_int_last: "fst (store_int v cur) = (if int_values v = [] then cur else last (int_values v))"
  by (cases v) (simp_all add: int_values_def split: option.splits)

lemma store_string_last:
  "fst (store_string v cur) = (if string_values v = [] then cur else last (string_values v))"
  by (cases v) (simp_all add: string_values_def)


lemma object_pendingData_Amount:
  assumes "object data_fields (store_pendingData rfc3339) ms' d saved = Inr (d', e)"
  shows "pd_Amount d' =
           (if field_values data_fields Amount int_values ms' = [] then pd_Amount d
            else last (field_values data_fields Amount int_values ms'))"
proof (rule object_last_value[where store = "store_pendingData rfc3339" and get = pd_Amount
        and f = Amount and val = int_values, OF _ _ assms])
  show "\<And>f' v s s' e. f' \<noteq> Amount \<Longrightarrow> store_pendingData rfc3339 f' v s = Inr (s', e) \<Longrightarrow>
          pd_Amount s' = pd_Amount s"
    by (rule store_pendingData_keeps_Amount)
  show "\<And>v s s' e. store_pendingData rfc3339 Amount v s = Inr (s', e) \<Longrightarrow>
          pd_Amount s' = (if int_values v = [] then pd_Amount s else last (int_values v))"
    by (auto simp: case_prod_beta store_int_last)
qed

lemma object_successData_Description:
  assumes "object data_fields (store_successData rfc3339) ms' d saved = Inr (d', e)"
  shows "sd_Description d' =
           (if field_values data_fields Description string_values ms' = [] then sd_Description d
            else last (field_values data_fields Description string_values ms'))"
proof (rule object_last_value[where store = "store_successData rfc3339" and get = sd_Description
        and f = Description and val = string_values, OF _ _ assms])
  show "\<And>f' v s s' e. f' \<noteq> Description \<Longrightarrow> store_successData rfc3339 f' v s = Inr (s', e) \<Longrightarrow>
          sd_Description s' = sd_Description s"
    by (rule store_successData_keeps_Description)
  show "\<And>v s s' e. store_successData rfc3339 Description v s = Inr (s', e) \<Longrightarrow>
          sd_Description s' = (if string_values v = [] then sd_Description s else last (string_values v))"
    by (auto simp: case_prod_beta store_string_last)
qed

lemma store_paymentPending_Data_Amount:
  assumes "store_paymentPending rfc3339 Data v p = Inr (p', e)"
  shows "pd_Amount (pp_Data p') =
           (if object_values Amount int_values v = [] then pd_Amount (pp_Data p)
            else last (object_values Amount int_values v))"
proof -
  from assms obtain x where
    sv: "struct_value ''struct'' data_fields (store_pendingData rfc3339) v (pp_Data p) = Inr (x, e)"
    and p': "p' = p\<lparr>pp_Data := x\<rparr>"
    by (auto split: sum.splits prod.splits)
  show ?thesis
  proof (cases v)
    case (JObject ms')
    with sv have "object data_fields (store_pendingData rfc3339) ms' (pp_Data p) None = Inr (x, e)"
      by (simp add: struct_value_def)
    from object_pendingData_Amount[OF this] JObject p' show ?thesis
      by (simp add: object_values_def)
  qed (use sv p' in \<open>auto simp: struct_value_def object_values_def\<close>)
qed

lemma store_paymentSuccessful_Data_Description:
  assumes "store_paymentSuccessful rfc3339 Data v p = Inr (p', e)"
  shows "sd_Description (ps_Data p') =
           (if object_values Description string_values v = [] then sd_Description (ps_Data p)
            else last (object_values Description string_values v))"
proof -
  from assms obtain x where
    sv: "struct_value ''struct'' data_fields (store_successData rfc3339) v (ps_Data p) = Inr (x, e)"
    and p': "p' = p\<lparr>ps_Data := x\<rparr>"
    by (auto split: sum.splits prod.splits)
  show ?thesis
  proof (cases v)
    case (JObject ms')
    with sv have "object data_fields (store_successData rfc3339) ms' (ps_Data p) None = Inr (x, e)"
      by (simp add: struct_value_def)
    from object_successData_Description[OF this] JObject p' show ?thesis
      by (simp add: object_values_def)
  qed (use sv p' in \<open>auto simp: struct_value_def object_values_def\<close>)
qed

lemma store_paymentPending_Event_keeps:
  "f' \<noteq> Data \<Longrightarrow> store_paymentPending rfc3339 f' v p = Inr (p', e) \<Longrightarrow>
   pd_Amount (pp_Data p') = pd_Amount (pp_Data p)"
  by (cases f') (auto split: prod.splits)

lemma store_paymentSuccessful_Event_keeps:
  "f' \<noteq> Data \<Longrightarrow> store_paymentSuccessful rfc3339 f' v p = Inr (p', e) \<Longrightarrow>
   sd_Description (ps_Data p') = sd_Description (ps_Data p)"
  by (cases f') (auto split: prod.splits)

lemma pending_Amount_payload:
  assumes "Unmarshal (value_paymentPending rfc3339) (JObject ms) zero_paymentPending = Inr pp"
  shows "pd_Amount (pp_Data pp) = payload_amount ms"
proof -
  from assms obtain saved' where
    o: "object payment_fields (store_paymentPending rfc3339) ms zero_paymentPending None = Inr (pp, saved')"
    by (auto simp: Unmarshal_def value_paymentPending_def struct_value_def split: sum.splits option.splits)
  have "pd_Amount (pp_Data pp) =
          (if field_values payment_fields Data (object_values Amount int_values) ms = []
           then pd_Amount (pp_Data zero_paymentPending)
           else last (field_values payment_fields Data (object_values Amount int_values) ms))"
    by (rule object_last_value[where store = "store_paymentPending rfc3339"
          and get = "\<lambda>p. pd_Amount (pp_Data p)" and f = Data
          and val = "object_values Amount int_values", OF _ _ o])
       (erule (1) store_paymentPending_Event_keeps, erule store_paymentPending_Data_Amount)
  then show ?thesis
    by (simp add: payload_amount_def data_values_def zero_paymentPending_def zero_pendingData_def)
qed

lemma successful_Description_payload:
  assumes "Unmarshal (value_paymentSuccessful rfc3339) (JObject ms) zero_paymentSuccessful = Inr ps"
  shows "sd_Description (ps_Data ps) = payload_description ms"
proof -
  from assms obtain saved' where
    o: "object payment_fields (store_paymentSuccessful rfc3339) ms zero_paymentSuccessful None = Inr (ps, saved')"
    by (auto simp: Unmarshal_def value_paymentSuccessful_def struct_value_def split: sum.splits option.splits)
  have "sd_Description (ps_Data ps) =
          (if field_values payment_fields Data (object_values Description string_values) ms = []
           then sd_Description (ps_Data zero_paymentSuccessful)
           else last (field_values payment_fields Data (object_values Description string_values) ms))"
    by (rule object_last_value[where store = "store_paymentSuccessful rfc3339"
          and get = "\<lambda>p. sd_Description (ps_Data p)" and f = Data
          and val = "object_values Description string_values", OF _ _ o])
       (erule (1) store_paymentSuccessful_Event_keeps, erule store_paymentSuccessful_Data_Description)
  then show ?thesis
    by (simp add: payload_description_def data_values_def zero_paymentSuccessful_def zero_successData_def)
qed

lemma payment_accepts_envelope:
  assumes "accepts rfc3339 (struct_type payment_fields (payment_type ty)) (JObject ms)"
  shows "accepts rfc3339 (struct_type eventIdentfier_fields (\<lambda>f. TString)) (JObject ms)"
  using assms
proof (induction ms)
  case Nil
  then show ?case by (simp add: accepts_struct_Nil)
next
  case (Cons m ms)
  obtain k v where m: "m = (k, v)" by (cases m)
  from Cons.prems m have
    a: "case find_field payment_fields (unquote k) of None \<Rightarrow> True
        | Some f \<Rightarrow> accepts rfc3339 (payment_type ty f) v"
    and r: "accepts rfc3339 (struct_type payment_fields (payment_type ty)) (JObject ms)"
    by (simp_all add: accepts_struct_Cons)
  have "case find_field eventIdentfier_fields (unquote k) of None \<Rightarrow> True
        | Some f \<Rightarrow> accepts rfc3339 TString v"
  proof (cases "find_field eventIdentfier_fields (unquote k)")
    case None
    then show ?thesis by simp
  next
    case (Some f)
    then have "find_field eventIdentfier_fields (unquote k) = Some Event"
      using find_field_eventIdentfier by blast
    then have "find_field payment_fields (unquote k) = Some Event"
      by (simp add: find_field_payment)
    with a Some show ?thesis by simp
  qed
  with Cons.IH[OF r] show ?case
    unfolding m accepts_struct_Cons by simp
qed

lemma envelope_of_accepted:
  assumes "accepts rfc3339 (struct_type payment_fields (payment_type ty)) (JObject ms)"
  shows "envelope_ok ms \<and>
         Unmarshal value_eventIdentfier (JObject ms) zero_eventIdentfier =
           Inr \<lparr>ei_Event = envelope_event ms\<rparr>"
proof -
  from payment_accepts_envelope[OF assms]
  obtain ei where "Unmarshal value_eventIdentfier (JObject ms) zero_eventIdentfier = Inr ei"
    using Unmarshal_eventIdentfier_iff[of "JObject ms" zero_eventIdentfier rfc3339] by blast
  then show ?thesis
    by (cases "envelope_ok ms") (simp_all add: Unmarshal_eventIdentfier_object)
qed

subsection \<open>The two recognized events\<close>

text \<open>
  Claim C1, as amended. For every payload that is valid JSON (more generally, every body
  from which the decoder reads a value), that is an object whose event, the string of the
  last top-level member that is a string and whose key reads \<^verbatim>\<open>event\<close> in any letter
  case, is \<^verbatim>\<open>paymentrequest.pending\<close>, and that decodes without error into the pending
  payment struct, the handler answers 200 with the one document
  \<^verbatim>\<open>{"event type": event, "amount": amount}\<close>, where the amount is the integer of the
  last amount member that is a number, the key in any letter case, of the data objects of
  the payload, and 0 when there is none. The writer is any writer that works and has sent no status yet.
\<close>

theorem pending_event_response:
  assumes "Decoder_Decode (Body r) = Inr (JObject ms)"
    and "envelope_event ms = ''paymentrequest.pending''"
    and "Unmarshal (value_paymentPending rfc3339) (JObject ms) zero_paymentPending = Inr pp"
    and "\<not> broken w" and "status w = None"
  shows "snd (HandleDynamicAPI rfc3339 user l w r) =
           w\<lparr>Header := Header w @ [(''Content-Type'', ''application/json'')],
             status := Some 200,
             written := written w @
               [[(''event type'', GoString (envelope_event ms)),
                 (''amount'', GoInt (payload_amount ms))]]\<rparr> \<and>
         response_status (snd (HandleDynamicAPI rfc3339 user l w r)) = 200 \<and>
         pp_Event pp = envelope_event ms \<and>
         pd_Amount (pp_Data pp) = payload_amount ms"
proof -
  from assms(3) have "accepts rfc3339 paymentPending_type (JObject ms)"
    using Unmarshal_paymentPending_iff[of rfc3339 "JObject ms" zero_paymentPending] by blast
  from envelope_of_accepted[OF this[unfolded paymentPending_type_def]]
  have e: "Unmarshal value_eventIdentfier (JObject ms) zero_eventIdentfier =
             Inr \<lparr>ei_Event = envelope_event ms\<rparr>"
    by simp
  have ev: "ei_Event \<lparr>ei_Event = envelope_event ms\<rparr> = ''paymentrequest.pending''"
    using assms(2) by simp
  note h = handler_pending_ok[OF assms(1) e ev assms(3,4,5), of user l]
  note a = pending_Amount_payload[OF assms(3)]
  from pending_same_event[OF e assms(3)] have p: "pp_Event pp = envelope_event ms" by simp
  from h a p show ?thesis by (simp add: response_status_def)
qed

theorem pending_event_witness:
  \<open>snd (HandleDynamicAPI (\<lambda>s. True) ''dev'' [] (new_writer False)
          \<lparr>Body = ''{"event":"paymentrequest.pending","data":{"id":1,"amount":5000}}''\<rparr>) =
     \<lparr>Header = [(''Content-Type'', ''application/json'')], status = Some 200,
      written = [[(''event type'', GoString ''paymentrequest.pending''), (''amount'', GoInt 5000)]],
      broken = False\<rparr>\<close>
proof -
  let ?ms = "[(''event'', JString ''paymentrequest.pending''),
              (''data'', JObject [(''id'', JNumber ''1''), (''amount'', JNumber ''5000'')])]"
  have d: \<open>Decoder_Decode (Body \<lparr>Body = ''{"event":"paymentrequest.pending","data":{"id":1,"amount":5000}}''\<rparr>) =
             Inr (JObject ?ms)\<close>
    by code_simp
  have e: "envelope_event ?ms = ''paymentrequest.pending''"
    by code_simp
  have a: "payload_amount ?ms = 5000"
    by code_simp
  have p: "Unmarshal (value_paymentPending (\<lambda>s. True)) (JObject ?ms) zero_paymentPending =
             Inr \<lparr>pp_Event = ''paymentrequest.pending'',
                  pp_Data = zero_pendingData\<lparr>pd_ID := 1, pd_Amount := 5000\<rparr>\<rparr>"
    by code_simp
  from pending_event_response[OF d e p, of "new_writer False" "''dev''" "[]"] e a
  show ?thesis by (simp add: new_writer_def)
qed

text \<open>
  Claim C1 as stated fails. The first payload is valid JSON, has an event member equal to
  \<^verbatim>\<open>paymentrequest.pending\<close> and decodes without error into the pending payment struct,
  but a later member, whose key reads event in capitals, is stored over it, and the
  handler answers 500. The second has \<^verbatim>\<open>"amount":5000\<close> in its data, and the handler
  answers with amount 1, from the later member whose key reads amount with a capital.
\<close>

theorem pending_event_later_member_wins:
  \<open>Valid ''{"event":"paymentrequest.pending","EVENT":"x"}'' \<and>
   Decoder_Decode ''{"event":"paymentrequest.pending","EVENT":"x"}'' =
     Inr (JObject [(''event'', JString ''paymentrequest.pending''), (''EVENT'', JString ''x'')]) \<and>
   Unmarshal (value_paymentPending (\<lambda>s. True))
       (JObject [(''event'', JString ''paymentrequest.pending''), (''EVENT'', JString ''x'')])
       zero_paymentPending = Inr (zero_paymentPending\<lparr>pp_Event := ''x''\<rparr>) \<and>
   HandleDynamicAPI (\<lambda>s. True) ''dev'' [] (new_writer False)
       \<lparr>Body = ''{"event":"paymentrequest.pending","EVENT":"x"}''\<rparr> =
     ([(INFO, ''This API is connected'', [(''user'', StringValue ''dev'')]),
       (INFO, ''no event type found'', [(''response event title'', StringValue ''x'')])],
      \<lparr>Header = [], status = Some 500, written = [], broken = False\<rparr>) \<and>
   Valid ''{"event":"paymentrequest.pending","data":{"amount":5000,"Amount":1}}'' \<and>
   snd (HandleDynamicAPI (\<lambda>s. True) ''dev'' [] (new_writer False)
          \<lparr>Body = ''{"event":"paymentrequest.pending","data":{"amount":5000,"Amount":1}}''\<rparr>) =
     \<lparr>Header = [(''Content-Type'', ''application/json'')], status = Some 200,
      written = [[(''event type'', GoString ''paymentrequest.pending''), (''amount'', GoInt 1)]],
      broken = False\<rparr>\<close>
  by code_simp

text \<open>
  Claim C2, as amended. For every payload that is valid JSON (more generally, every body
  from which the decoder reads a value), that is an object whose event, the string of the
  last top-level member that is a string and whose key reads \<^verbatim>\<open>event\<close> in any letter
  case, is \<^verbatim>\<open>paymentrequest.success\<close>, and that decodes without error into the
  successful payment struct, the handler answers 200 with the one document
  \<^verbatim>\<open>{"event type": event, "description": description}\<close>, where the description is the
  string of the last description member that is a string, the key in any letter case, of
  the data objects of the payload, and the empty string when there is none.
\<close>

theorem successful_event_response:
  assumes "Decoder_Decode (Body r) = Inr (JObject ms)"
    and "envelope_event ms = ''paymentrequest.success''"
    and "Unmarshal (value_paymentSuccessful rfc3339) (JObject ms) zero_paymentSuccessful = Inr ps"
    and "\<not> broken w" and "status w = None"
  shows "snd (HandleDynamicAPI rfc3339 user l w r) =
           w\<lparr>Header := Header w @ [(''Content-Type'', ''application/json'')],
             status := Some 200,
             written := written w @
               [[(''event type'', GoString (envelope_event ms)),
                 (''description'', GoString (payload_description ms))]]\<rparr> \<and>
         response_status (snd (HandleDynamicAPI rfc3339 user l w r)) = 200 \<and>
         ps_Event ps = envelope_event ms \<and>
         sd_Description (ps_Data ps) = payload_description ms"
proof -
  from assms(3) have "accepts rfc3339 paymentSuccessful_type (JObject ms)"
    using Unmarshal_paymentSuccessful_iff[of rfc3339 "JObject ms" zero_paymentSuccessful] by blast
  from envelope_of_accepted[OF this[unfolded paymentSuccessful_type_def]]
  have e: "Unmarshal value_eventIdentfier (JObject ms) zero_eventIdentfier =
             Inr \<lparr>ei_Event = envelope_event ms\<rparr>"
    by simp
  have ev: "ei_Event \<lparr>ei_Event = envelope_event ms\<rparr> = ''paymentrequest.success''"
    using assms(2) by simp
  note h = handler_successful_ok[OF assms(1) e ev assms(3,4,5), of user l]
  note a = successful_Description_payload[OF assms(3)]
  from successful_same_event[OF e assms(3)] have p: "ps_Event ps = envelope_event ms" by simp
  from h a p show ?thesis by (simp add: response_status_def)
qed

theorem successful_event_witness:
  \<open>snd (HandleDynamicAPI (\<lambda>s. True) ''dev'' [] (new_writer False)
          \<lparr>Body = ''{"event":"paymentrequest.success","data":{"id":2,"description":"Invoice #2"}}''\<rparr>) =
     \<lparr>Header = [(''Content-Type'', ''application/json'')], status = Some 200,
      written = [[(''event type'', GoString ''paymentrequest.success''),
                  (''description'', GoString ''Invoice #2'')]],
      broken = False\<rparr>\<close>
proof -
  let ?ms = "[(''event'', JString ''paymentrequest.success''),
              (''data'', JObject [(''id'', JNumber ''2''), (''description'', JString ''Invoice #2'')])]"
  have d: \<open>Decoder_Decode (Body \<lparr>Body = ''{"event":"paymentrequest.success","data":{"id":2,"description":"Invoice #2"}}''\<rparr>) =
             Inr (JObject ?ms)\<close>
    by code_simp
  have e: "envelope_event ?ms = ''paymentrequest.success''"
    by code_simp
  have a: "payload_description ?ms = ''Invoice #2''"
    by code_simp
  have p: "Unmarshal (value_paymentSuccessful (\<lambda>s. True)) (JObject ?ms) zero_paymentSuccessful =
             Inr \<lparr>ps_Event = ''paymentrequest.success'',
                  ps_Data = zero_successData\<lparr>sd_ID := 2, sd_Description := ''Invoice #2''\<rparr>\<rparr>"
    by code_simp
  from successful_event_response[OF d e p, of "new_writer False" "''dev''" "[]"] e a
  show ?thesis by (simp add: new_writer_def)
qed

text \<open>
  Claim C2 as stated fails. The first payload is valid JSON, has an event member equal to
  \<^verbatim>\<open>paymentrequest.success\<close> and decodes without error into the successful payment
  struct, but a later member, whose key reads event in capitals, is stored over it, and
  the handler answers 500. The second has \<^verbatim>\<open>"description":"A"\<close> in its data, and the
  handler answers with the description B, from the later member whose key reads
  description in capitals.
\<close>

theorem successful_event_later_member_wins:
  \<open>Valid ''{"event":"paymentrequest.success","EVENT":"x"}'' \<and>
   Decoder_Decode ''{"event":"paymentrequest.success","EVENT":"x"}'' =
     Inr (JObject [(''event'', JString ''paymentrequest.success''), (''EVENT'', JString ''x'')]) \<and>
   Unmarshal (value_paymentSuccessful (\<lambda>s. True))
       (JObject [(''event'', JString ''paymentrequest.success''), (''EVENT'', JString ''x'')])
       zero_paymentSuccessful = Inr (zero_paymentSuccessful\<lparr>ps_Event := ''x''\<rparr>) \<and>
   HandleDynamicAPI (\<lambda>s. True) ''dev'' [] (new_writer False)
       \<lparr>Body = ''{"event":"paymentrequest.success","EVENT":"x"}''\<rparr> =
     ([(INFO, ''This API is connected'', [(''user'', StringValue ''dev'')]),
       (INFO, ''no event type found'', [(''response event title'', StringValue ''x'')])],
      \<lparr>Header = [], status = Some 500, written = [], broken = False\<rparr>) \<and>
   Valid ''{"event":"paymentrequest.success","data":{"description":"A","DESCRIPTION":"B"}}'' \<and>
   snd (HandleDynamicAPI (\<lambda>s. True) ''dev'' [] (new_writer False)
          \<lparr>Body = ''{"event":"paymentrequest.success","data":{"description":"A","DESCRIPTION":"B"}}''\<rparr>) =
     \<lparr>Header = [(''Content-Type'', ''application/json'')], status = Some 200,
      written = [[(''event type'', GoString ''paymentrequest.success''),
                  (''description'', GoString ''B'')]],
      broken = False\<rparr>\<close>
  by code_simp

subsection \<open>A recognized event that does not decode\<close>

text \<open>
  Claim C5, as amended. For every payload the decoder reads that is an object whose event
  members are strings or \<^verbatim>\<open>null\<close> and whose event, the string of the last event member
  that is a string, the key in any letter case, is one of the two recognized kinds, and
  whose body does not decode into the struct of that kind, the error is logged and the
  handler returns with the writer as it was: no body, no header, no status.
\<close>

theorem schema_mismatch_no_response:
  assumes "Decoder_Decode (Body r) = Inr (JObject ms)"
    and "envelope_ok ms"
  shows "(envelope_event ms = ''paymentrequest.pending'' \<and>
          Unmarshal (value_paymentPending rfc3339) (JObject ms) zero_paymentPending = Inl e \<longrightarrow>
          HandleDynamicAPI rfc3339 user l w r =
            (l @ [(INFO, ''This API is connected'', [(''user'', StringValue user)]),
                  (INFO, ''payment pending hook event'',
                     [(''response event title'', StringValue ''paymentrequest.pending'')]),
                  (ERROR, ''error marshalling pending payment data'',
                     [(''error context'', AnyValue e)])], w))
       \<and> (envelope_event ms = ''paymentrequest.success'' \<and>
          Unmarshal (value_paymentSuccessful rfc3339) (JObject ms) zero_paymentSuccessful = Inl e \<longrightarrow>
          HandleDynamicAPI rfc3339 user l w r =
            (l @ [(INFO, ''This API is connected'', [(''user'', StringValue user)]),
                  (INFO, ''payment successful hook event'',
                     [(''response event title'', StringValue ''paymentrequest.success'')]),
                  (ERROR, ''error marshalling successful payment data'',
                     [(''error context'', AnyValue e)])], w))"
proof -
  have e: "Unmarshal value_eventIdentfier (JObject ms) zero_eventIdentfier =
             Inr \<lparr>ei_Event = envelope_event ms\<rparr>"
    using assms(2) by (simp add: Unmarshal_eventIdentfier_object)
  show ?thesis
    using assms(1) e by (simp add: HandleDynamicAPI_def Info_def Error_def)
qed

theorem schema_mismatch_witness:
  \<open>HandleDynamicAPI (\<lambda>s. True) ''dev'' [] (new_writer False)
       \<lparr>Body = ''{"event":"paymentrequest.pending","data":{"amount":"5"}}''\<rparr> =
     ([(INFO, ''This API is connected'', [(''user'', StringValue ''dev'')]),
       (INFO, ''payment pending hook event'',
          [(''response event title'', StringValue ''paymentrequest.pending'')]),
       (ERROR, ''error marshalling pending payment data'',
          [(''error context'', AnyValue (UnmarshalTypeError ''string'' ''int''))])],
      new_writer False) \<and>
   HandleDynamicAPI (\<lambda>s. True) ''dev'' [] (new_writer False)
       \<lparr>Body = ''{"event":"paymentrequest.success","data":{"paid":1}}''\<rparr> =
     ([(INFO, ''This API is connected'', [(''user'', StringValue ''dev'')]),
       (INFO, ''payment successful hook event'',
          [(''response event title'', StringValue ''paymentrequest.success'')]),
       (ERROR, ''error marshalling successful payment data'',
          [(''error context'', AnyValue (UnmarshalTypeError ''number'' ''bool''))])],
      new_writer False)\<close>
proof -
  let ?mp = "[(''event'', JString ''paymentrequest.pending''),
              (''data'', JObject [(''amount'', JString ''5'')])]"
  let ?ms = "[(''event'', JString ''paymentrequest.success''),
              (''data'', JObject [(''paid'', JNumber ''1'')])]"
  have dp: \<open>Decoder_Decode (Body \<lparr>Body = ''{"event":"paymentrequest.pending","data":{"amount":"5"}}''\<rparr>) =
              Inr (JObject ?mp)\<close>
    by code_simp
  have ds: \<open>Decoder_Decode (Body \<lparr>Body = ''{"event":"paymentrequest.success","data":{"paid":1}}''\<rparr>) =
              Inr (JObject ?ms)\<close>
    by code_simp
  have op: "envelope_ok ?mp" by code_simp
  have os: "envelope_ok ?ms" by code_simp
  have ep: "envelope_event ?mp = ''paymentrequest.pending''" by code_simp
  have es: "envelope_event ?ms = ''paymentrequest.success''" by code_simp
  have mp: "Unmarshal (value_paymentPending (\<lambda>s. True)) (JObject ?mp) zero_paymentPending =
              Inl (UnmarshalTypeError ''string'' ''int'')"
    by code_simp
  have ms: "Unmarshal (value_paymentSuccessful (\<lambda>s. True)) (JObject ?ms) zero_paymentSuccessful =
              Inl (UnmarshalTypeError ''number'' ''bool'')"
    by code_simp
  from schema_mismatch_no_response[OF dp op, of "\<lambda>s. True" "UnmarshalTypeError ''string'' ''int''"
         "''dev''" "[]" "new_writer False"]
       schema_mismatch_no_response[OF ds os, of "\<lambda>s. True" "UnmarshalTypeError ''number'' ''bool''"
         "''dev''" "[]" "new_writer False"]
       ep es mp ms
  show ?thesis by simp
qed

text \<open>
  Claim C5 as stated fails: the payload is valid JSON, has an event member equal to
  \<^verbatim>\<open>paymentrequest.pending\<close> and does not decode into the pending payment struct (its
  amount is a string), but a later member whose key reads event in capitals is stored
  over the event, and the handler logs no error and answers 500.
\<close>

theorem schema_mismatch_later_event_500:
  \<open>Valid ''{"event":"paymentrequest.pending","EVENT":"x","data":{"amount":"5"}}'' \<and>
   Decoder_Decode ''{"event":"paymentrequest.pending","EVENT":"x","data":{"amount":"5"}}'' =
     Inr (JObject [(''event'', JString ''paymentrequest.pending''), (''EVENT'', JString ''x''),
                   (''data'', JObject [(''amount'', JString ''5'')])]) \<and>
   Unmarshal (value_paymentPending (\<lambda>s. True))
       (JObject [(''event'', JString ''paymentrequest.pending''), (''EVENT'', JString ''x''),
                 (''data'', JObject [(''amount'', JString ''5'')])])
       zero_paymentPending = Inl (UnmarshalTypeError ''string'' ''int'') \<and>
   HandleDynamicAPI (\<lambda>s. True) ''dev'' [] (new_writer False)
       \<lparr>Body = ''{"event":"paymentrequest.pending","EVENT":"x","data":{"amount":"5"}}''\<rparr> =
     ([(INFO, ''This API is connected'', [(''user'', StringValue ''dev'')]),
       (INFO, ''no event type found'', [(''response event title'', StringValue ''x'')])],
      \<lparr>Header = [], status = Some 500, written = [], broken = False\<rparr>)\<close>
  by code_simp

end
